theory Spec2Isabelle
  imports Complex_Main "HOL-Library.Word"
begin

section \<open>Exceptions of the Python code\<close>

text \<open>
  Every exception the modelled code can raise is a value; a fallible function returns
  \<open>error + 'a\<close> with \<open>Inl\<close> for the exception.
\<close>

datatype error =
    AssertionError
  | IndexError
  | ValueError
  | TypeError
  | NameError
  | ZeroDivisionError
  | OverflowError
  | ConfigAttributeError string
  | ShapeNotModelled

section \<open>Gradient update wrappers (evorl/distributed/gradients.py)\<close>

text \<open>
  A pytree of parameters is a value of a type with an addition: \<open>optax.apply_updates\<close>
  adds the update to the parameters leaf by leaf. JAX's automatic differentiation is a
  parameter \<open>D\<close> of the model: \<open>D f p\<close> is the gradient of the scalar function \<open>f\<close>
  at \<open>p\<close>. A loss returns the pair (scalar, auxiliary data) of \<open>has_aux=True\<close>;
  \<open>has_aux=False\<close> is the case of auxiliary data of type \<open>unit\<close>.
  The collective \<open>jax.lax.pmean\<close> is the parameter \<open>pmean\<close>.
\<close>

type_synonym 'p autodiff = "('p \<Rightarrow> real) \<Rightarrow> 'p \<Rightarrow> 'p"

record ('p, 's) GradientTransformation =
  init :: "'p \<Rightarrow> 's"
  update :: "'p \<Rightarrow> 's \<Rightarrow> 'p \<times> 's"

record ('p, 'o) AgentState =
  params :: 'p
  obs_preprocessor_state :: "'o option"

definition apply_updates :: "'p::plus \<Rightarrow> 'p \<Rightarrow> 'p" where
  "apply_updates ps updates = ps + updates"

definition value_and_grad ::
  "'p autodiff \<Rightarrow> ('p \<Rightarrow> 'r \<Rightarrow> real \<times> 'aux) \<Rightarrow> 'p \<Rightarrow> 'r \<Rightarrow> (real \<times> 'aux) \<times> 'p" where
  "value_and_grad D loss_fn p rest = (loss_fn p rest, D (\<lambda>q. fst (loss_fn q rest)) p)"

definition loss_and_pgrad ::
  "'p autodiff \<Rightarrow> (string \<Rightarrow> 'p \<Rightarrow> 'p) \<Rightarrow> ('p \<Rightarrow> 'r \<Rightarrow> real \<times> 'aux) \<Rightarrow> string option
     \<Rightarrow> 'p \<Rightarrow> 'r \<Rightarrow> (real \<times> 'aux) \<times> 'p" where
  "loss_and_pgrad D pmean loss_fn pmap_axis_name =
     (let g = value_and_grad D loss_fn;
          h = (\<lambda>p rest. case g p rest of (value, grad) \<Rightarrow>
                 (value, pmean (the pmap_axis_name) grad))
      in if pmap_axis_name = None then g else h)"

text \<open>
  \<open>gradient_update\<close>: the returned \<open>f(optimizer_state, params, *args)\<close>. The positional
  \<open>*args\<close> are the pair of \<open>args[0]\<close> and the remaining arguments.
\<close>

definition gradient_update ::
  "'p autodiff \<Rightarrow> (string \<Rightarrow> 'p \<Rightarrow> 'p) \<Rightarrow> ('p \<Rightarrow> 'r \<Rightarrow> real \<times> 'aux)
     \<Rightarrow> ('p::plus, 's) GradientTransformation \<Rightarrow> string option
     \<Rightarrow> 's \<Rightarrow> 'q \<Rightarrow> 'p \<times> 'r \<Rightarrow> (real \<times> 'aux) \<times> 'p \<times> 's" where
  "gradient_update D pmean loss_fn optimizer pmap_axis_name =
     (let loss_and_pgrad_fn = loss_and_pgrad D pmean loss_fn pmap_axis_name
      in (\<lambda>optimizer_state ps args.
            case loss_and_pgrad_fn (fst args) (snd args) of (value, grads) \<Rightarrow>
            case update optimizer grads optimizer_state of (params_upd, optimizer_state') \<Rightarrow>
            let ps' = apply_updates (fst args) params_upd
            in (value, ps', optimizer_state')))"

text \<open>
  \<open>agent_gradient_update\<close>: the returned \<open>f(opt_state, agent_state, sample_batch, key)\<close>.
  The statement \<open>agent_state.replace(params=params)\<close> builds a new agent state whose
  value the source does not bind; \<open>agent_state\<close> stays the argument.
\<close>

definition agent_gradient_update ::
  "'p autodiff \<Rightarrow> (string \<Rightarrow> 'p \<Rightarrow> 'p) \<Rightarrow> (('p, 'o) AgentState \<Rightarrow> 'b \<Rightarrow> 'k \<Rightarrow> real \<times> 'aux)
     \<Rightarrow> ('p::plus, 's) GradientTransformation \<Rightarrow> string option
     \<Rightarrow> 's \<Rightarrow> ('p, 'o) AgentState \<Rightarrow> 'b \<Rightarrow> 'k
     \<Rightarrow> (real \<times> 'aux) \<times> ('p, 'o) AgentState \<times> 's" where
  "agent_gradient_update D pmean loss_fn optimizer pmap_axis_name =
     (let wrapped_loss_fn = (\<lambda>ps (agent_state, sample_batch, key).
                        loss_fn (agent_state\<lparr>params := ps\<rparr>) sample_batch key);
          loss_and_pgrad_fn = loss_and_pgrad D pmean wrapped_loss_fn pmap_axis_name
      in (\<lambda>opt_state agent_state sample_batch key.
            case loss_and_pgrad_fn (params agent_state) (agent_state, sample_batch, key)
              of (value, grads) \<Rightarrow>
            case update optimizer grads opt_state of (params_upd, opt_state') \<Rightarrow>
            let ps' = apply_updates (params agent_state) params_upd;
                replaced = agent_state\<lparr>params := ps'\<rparr>
            in (value, agent_state, opt_state')))"

text \<open>The parameters that the update of \<open>agent_gradient_update\<close> computes.\<close>

definition agent_new_params ::
  "'p autodiff \<Rightarrow> (string \<Rightarrow> 'p \<Rightarrow> 'p) \<Rightarrow> (('p, 'o) AgentState \<Rightarrow> 'b \<Rightarrow> 'k \<Rightarrow> real \<times> 'aux)
     \<Rightarrow> ('p::plus, 's) GradientTransformation \<Rightarrow> string option
     \<Rightarrow> 's \<Rightarrow> ('p, 'o) AgentState \<Rightarrow> 'b \<Rightarrow> 'k \<Rightarrow> 'p" where
  "agent_new_params D pmean loss_fn optimizer pmap_axis_name opt_state agent_state sample_batch key =
     (let grads = snd (loss_and_pgrad D pmean
                    (\<lambda>ps (a, b, k). loss_fn (a\<lparr>params := ps\<rparr>) b k) pmap_axis_name
                    (params agent_state) (agent_state, sample_batch, key))
      in apply_updates (params agent_state) (fst (update optimizer grads opt_state)))"

text \<open>
  A test instance: the loss is the parameter itself, its derivative is 1, and the
  optimizer is gradient descent with step 1/10 that counts its calls.
\<close>

definition demo_D :: "real autodiff" where
  "demo_D f p = 1"

definition demo_loss :: "(real, unit) AgentState \<Rightarrow> unit \<Rightarrow> unit \<Rightarrow> real \<times> unit" where
  "demo_loss a b k = (params a, ())"

definition demo_sgd :: "(real, nat) GradientTransformation" where
  "demo_sgd = \<lparr>init = (\<lambda>p. 0), update = (\<lambda>g s. (- (1 / 10) * g, Suc s))\<rparr>"

definition demo_agent :: "(real, unit) AgentState" where
  "demo_agent = \<lparr>params = 1, obs_preprocessor_state = None\<rparr>"

section \<open>Generalised advantage estimation (evorl/utils/toolkits.py)\<close>

text \<open>
  A \<open>jax.Array\<close> of rank at least one is its shape together with its items along the
  leading axis, each item flattened to the list of its entries: an array of shape
  \<open>[T, B]\<close> has \<open>T\<close> items of \<open>B\<close> entries, and the one-dimensional array
  \<open>[1, 1, 1]\<close> of shape \<open>[3]\<close> has the items \<open>[1]\<close>, \<open>[1]\<close>, \<open>[1]\<close>.
  \<open>float32\<close> arithmetic is modelled by the arithmetic of \<open>real\<close>.
\<close>

datatype array = Array (shape: "nat list") (items: "real list list")

definition well_shaped :: "array \<Rightarrow> bool" where
  "well_shaped a =
     (case shape a of
        [] \<Rightarrow> False
      | n # rest \<Rightarrow> length (items a) = n \<and> list_all (\<lambda>r. length r = prod_list rest) (items a))"

definition entry :: "array \<Rightarrow> nat \<Rightarrow> nat \<Rightarrow> real" where
  "entry a t b = items a ! t ! b"

text \<open>\<open>jax.lax.scan(f, init, xs, reverse=True)\<close>: the last item is consumed first.\<close>

fun scan_reverse :: "('c \<Rightarrow> 'x \<Rightarrow> 'c \<times> 'y) \<Rightarrow> 'c \<Rightarrow> 'x list \<Rightarrow> 'c \<times> 'y list" where
  "scan_reverse f carry0 [] = (carry0, [])"
| "scan_reverse f carry0 (x # xs) =
     (case scan_reverse f carry0 xs of (carry, ys) \<Rightarrow>
      case f carry x of (carry', y) \<Rightarrow> (carry', y # ys))"

text \<open>The scanned function \<open>_compute_gae\<close> of \<open>compute_gae\<close>.\<close>

definition compute_gae_step ::
  "real list \<Rightarrow> real list \<times> real list \<Rightarrow> real list \<times> real list" where
  "compute_gae_step gae_t_plus_1 x_t =
     (case x_t of (delta_t, factor_t) \<Rightarrow>
        let gae_t = map2 (+) delta_t (map2 (*) factor_t gae_t_plus_1)
        in (gae_t, gae_t))"

text \<open>
  \<open>compute_gae\<close>. \<open>rewards.shape[0]\<close> raises on a scalar; \<open>chex.assert_shape\<close> raises
  \<open>AssertionError\<close> unless \<open>values\<close> has the shape \<open>(T + 1, *rest)\<close>. Where \<open>dones\<close> has
  another shape than \<open>rewards\<close>, JAX broadcasts or raises; the model does not follow
  broadcasting and answers \<open>ShapeNotModelled\<close> there.
\<close>

definition compute_gae :: "array \<Rightarrow> array \<Rightarrow> array \<Rightarrow> real \<Rightarrow> real \<Rightarrow> error + array \<times> array" where
  "compute_gae dones rewards values gae_lambda discount =
     (case shape rewards of
        [] \<Rightarrow> Inl IndexError
      | T # rest \<Rightarrow>
          if shape values \<noteq> (T + 1) # rest then Inl AssertionError
          else if shape dones \<noteq> shape rewards then Inl ShapeNotModelled
          else
            let values_1 = tl (items values);
                values_0 = butlast (items values);
                deltas = map2 (map2 (-))
                           (map2 (map2 (+)) (items rewards)
                              (map2 (map2 (*))
                                 (map (map (\<lambda>d. discount * (1 - d))) (items dones)) values_1))
                           values_0;
                last_gae = replicate (prod_list rest) 0;
                factors = map (map (\<lambda>d. discount * gae_lambda * (1 - d))) (items dones);
                advantages = snd (scan_reverse compute_gae_step last_gae (zip deltas factors));
                lambda_retruns = map2 (map2 (+)) advantages values_0
            in Inr (Array (shape rewards) lambda_retruns, Array (shape rewards) advantages))"

section \<open>Pseudorandom keys\<close>

text \<open>
  A JAX key is a pair of 32-bit words. The functions of \<open>jax.random\<close> are parameters of
  the model, collected in a record: \<open>random_split k num i\<close> is the \<open>i\<close>-th of the \<open>num\<close>
  keys of \<open>jax.random.split(k, num)\<close>; \<open>random_uniform k lo hi\<close> is
  \<open>jax.random.uniform(k, minval=lo, maxval=hi)\<close>; \<open>random_randint k n j\<close> is the \<open>j\<close>-th
  draw below \<open>n\<close> by which \<open>jax.random.choice\<close> picks entries; \<open>random_permutation k n\<close>
  is the order in which \<open>jax.random.permutation\<close> lists the positions of an array of
  leading length \<open>n\<close>.
\<close>

type_synonym PRNGKey = "32 word \<times> 32 word"

record prng =
  random_split :: "PRNGKey \<Rightarrow> nat \<Rightarrow> nat \<Rightarrow> PRNGKey"
  random_uniform :: "PRNGKey \<Rightarrow> real \<Rightarrow> real \<Rightarrow> real"
  random_randint :: "PRNGKey \<Rightarrow> nat \<Rightarrow> nat \<Rightarrow> nat"
  random_permutation :: "PRNGKey \<Rightarrow> nat \<Rightarrow> nat list"

definition split_keys :: "prng \<Rightarrow> PRNGKey \<Rightarrow> nat \<Rightarrow> PRNGKey list" where
  "split_keys rng k num = map (random_split rng k num) [0..<num]"

section \<open>Evaluation of an on-policy workflow (evorl/workflows/rl_workflow.py)\<close>

record ('m, 'a, 'e, 'o) State =
  key :: PRNGKey
  metrics :: 'm
  agent_state :: 'a
  env_state :: 'e
  opt_state :: 'o

record EvaluateMetric =
  episode_returns :: real
  episode_lengths :: real

text \<open>
  The mean of an array; of an empty array JAX gives NaN, which the model does not have.
\<close>

definition mean :: "real list \<Rightarrow> real" where
  "mean xs = sum_list xs / real (length xs)"

text \<open>
  \<open>OnPolicyWorkflow.evaluate\<close>. The evaluator collaborator is the parameter
  \<open>evaluator_evaluate\<close>, from the agent state, the number of episodes and a key to the
  arrays of episode returns and lengths; the collective \<open>all_reduce\<close> is a parameter.
\<close>

definition evaluate ::
  "prng \<Rightarrow> ('a \<Rightarrow> nat \<Rightarrow> PRNGKey \<Rightarrow> real list \<times> real list)
     \<Rightarrow> (string option \<Rightarrow> EvaluateMetric \<Rightarrow> EvaluateMetric) \<Rightarrow> nat \<Rightarrow> string option
     \<Rightarrow> ('m, 'a, 'e, 'o) State \<Rightarrow> EvaluateMetric \<times> ('m, 'a, 'e, 'o) State" where
  "evaluate rng evaluator_evaluate all_reduce eval_episodes pmap_axis_name state =
     (let k = random_split rng (key state) 2 0;
          eval_key = random_split rng (key state) 2 1;
          raw_eval_metrics = evaluator_evaluate (agent_state state) eval_episodes eval_key;
          eval_metrics = all_reduce pmap_axis_name
            \<lparr>episode_returns = mean (fst raw_eval_metrics),
             episode_lengths = mean (snd raw_eval_metrics)\<rparr>;
          state' = state\<lparr>key := k\<rparr>
      in (eval_metrics, state'))"

section \<open>Minibatches of the PPO workflow (evorl/agents/ppo.py)\<close>

text \<open>
  The configuration is a dictionary from key names to integers; reading an attribute
  that the dictionary does not have raises \<open>ConfigAttributeError\<close> (OmegaConf).
\<close>

type_synonym DictConfig = "string \<rightharpoonup> int"

definition config_attr :: "DictConfig \<Rightarrow> string \<Rightarrow> error + int" where
  "config_attr config name =
     (case config name of None \<Rightarrow> Inl (ConfigAttributeError name) | Some v \<Rightarrow> Inr v)"

text \<open>Python's \<open>str\<close> of an integer, for the text of the warning.\<close>

fun str_nat :: "nat \<Rightarrow> string" where
  "str_nat n =
     (if n < 10 then [char_of (48 + n)] else str_nat (n div 10) @ [char_of (48 + n mod 10)])"

definition str_int :: "int \<Rightarrow> string" where
  "str_int i = (if i < 0 then CHR ''-'' # str_nat (nat (- i)) else str_nat (nat i))"

text \<open>
  The check of \<open>PPOWorkflow._build_from_config\<close> on the rollout size, lines 303 to 307;
  the construction of the environments, the agent, the optimizer and the evaluator
  around it belongs to collaborators. The result is the list of logged warnings and the
  configuration the workflow is built with. The text of the warning reads the attribute
  \<open>minibath_size\<close>, as the source spells it.
\<close>

definition build_from_config :: "DictConfig \<Rightarrow> error + string list \<times> DictConfig" where
  "build_from_config config =
     (case config_attr config ''num_envs'' of
        Inl e \<Rightarrow> Inl e
      | Inr num_envs \<Rightarrow>
     (case config_attr config ''rollout_length'' of
        Inl e \<Rightarrow> Inl e
      | Inr rollout_length \<Rightarrow>
     (let one_step_rollout_steps = num_envs * rollout_length
      in case config_attr config ''minibatch_size'' of
           Inl e \<Rightarrow> Inl e
         | Inr minibatch_size \<Rightarrow>
             if minibatch_size = 0 then Inl ZeroDivisionError
             else if one_step_rollout_steps mod minibatch_size \<noteq> 0 then
               (case config_attr config ''minibath_size'' of
                  Inl e \<Rightarrow> Inl e
                | Inr v \<Rightarrow>
                    Inr ([''minibatch_size ('' @ str_int v
                            @ '' cannot divides num_envs*rollout_length)''], config))
             else Inr ([], config))))"

text \<open>
  The minibatches of one epoch in \<open>PPOWorkflow.step\<close>: \<open>num_minibatches\<close>, the slice
  \<open>[: num_minibatches * minibatch_size]\<close> of the permuted batch and its
  \<open>reshape(num_minibatches, -1, ...)\<close>. A reshape to no rows is not followed by the model.
\<close>

definition py_slice_to :: "int \<Rightarrow> 'a list \<Rightarrow> 'a list" where
  "py_slice_to n xs = (if n < 0 then take (nat (int (length xs) + n)) xs else take (nat n) xs)"

fun chunks :: "nat \<Rightarrow> nat \<Rightarrow> 'a list \<Rightarrow> 'a list list" where
  "chunks 0 m xs = []"
| "chunks (Suc n) m xs = take m xs # chunks n m (drop m xs)"

definition reshape_rows :: "int \<Rightarrow> 'a list \<Rightarrow> error + 'a list list" where
  "reshape_rows n xs =
     (if n < 0 then Inl ValueError
      else if n = 0 then Inl ShapeNotModelled
      else if int (length xs) mod n \<noteq> 0 then Inl TypeError
      else Inr (chunks (nat n) (length xs div nat n) xs))"

definition permutation :: "prng \<Rightarrow> PRNGKey \<Rightarrow> 'a list \<Rightarrow> 'a list" where
  "permutation rng k xs = map (\<lambda>i. xs ! i) (random_permutation rng k (length xs))"

definition num_minibatches :: "DictConfig \<Rightarrow> error + int" where
  "num_minibatches config =
     (case config_attr config ''rollout_length'' of
        Inl e \<Rightarrow> Inl e
      | Inr rollout_length \<Rightarrow>
     (case config_attr config ''num_envs'' of
        Inl e \<Rightarrow> Inl e
      | Inr num_envs \<Rightarrow>
     (case config_attr config ''minibatch_size'' of
        Inl e \<Rightarrow> Inl e
      | Inr minibatch_size \<Rightarrow>
          if minibatch_size = 0 then Inl ZeroDivisionError
          else Inr (rollout_length * num_envs div minibatch_size))))"

definition get_shuffled_minibatch ::
  "prng \<Rightarrow> DictConfig \<Rightarrow> PRNGKey \<Rightarrow> 'a list \<Rightarrow> error + 'a list list" where
  "get_shuffled_minibatch rng config perm_key x =
     (case num_minibatches config of
        Inl e \<Rightarrow> Inl e
      | Inr n \<Rightarrow>
     (case config_attr config ''minibatch_size'' of
        Inl e \<Rightarrow> Inl e
      | Inr minibatch_size \<Rightarrow>
          reshape_rows n (py_slice_to (n * minibatch_size) (permutation rng perm_key x))))"

section \<open>Population based training (evorl/agents/meta/pbt_distributed.py)\<close>

text \<open>
  The optimizer state of \<open>optax.inject_hyperparams\<close>; the isinstance assertion of
  \<open>apply_hyperparams_to_workflow_state\<close> is the type of the field \<open>opt_state\<close>.
\<close>

record ('hs, 'is) InjectStatefulHyperparamsState =
  count :: nat
  hyperparams :: "string \<rightharpoonup> real"
  hyperparams_states :: 'hs
  inner_state :: 'is

record WorkflowMetric =
  sampled_episodes :: "32 word"
  sampled_timesteps :: "32 word"
  iterations :: "32 word"

type_synonym ('a, 'e, 'hs, 'is) workflow_state =
  "(WorkflowMetric, 'a, 'e, ('hs, 'is) InjectStatefulHyperparamsState) State"

text \<open>
  The population is one hyperparameter dictionary per member (the only key is \<open>lr\<close>) and
  one workflow state per member; the source keeps both as pytrees of arrays with a leading
  population axis.
\<close>

record HyperParams =
  lr :: real

record PBTConfig =
  pop_size :: int
  bottom_ratio :: real
  top_ratio :: real
  perturb_factor :: "string \<Rightarrow> real"
  warmup_steps :: int
  per_iter_workflow_steps :: int
  parallel_train :: bool
  parallel_eval :: bool

record PBTTrainMetric =
  pop_episode_returns :: "real list"
  pop_episode_lengths :: "real list"

text \<open>
  The state of the scheduler; its fields \<open>key\<close> and \<open>metrics\<close> are named \<open>pbt_key\<close> and
  \<open>pbt_metrics\<close> here, apart from those of a member's state.
\<close>

record ('a, 'e, 'hs, 'is) PBTState =
  pbt_key :: PRNGKey
  pbt_metrics :: WorkflowMetric
  pop_workflow_state :: "('a, 'e, 'hs, 'is) workflow_state list"
  pop :: "HyperParams list"

text \<open>Python's \<open>round\<close> of a float: to the nearest integer, a tie to the even one.\<close>

definition py_round :: "real \<Rightarrow> int" where
  "py_round x =
     (let f = \<lfloor>x\<rfloor>; d = x - of_int f
      in if d < 1 / 2 then f else if 1 / 2 < d then f + 1 else if even f then f else f + 1)"

text \<open>The slice \<open>xs[n:]\<close>; \<open>py_slice_to\<close> above is \<open>xs[:n]\<close>.\<close>

definition py_slice_from :: "int \<Rightarrow> 'a list \<Rightarrow> 'a list" where
  "py_slice_from n xs = (if n < 0 then drop (nat (int (length xs) + n)) xs else drop (nat n) xs)"

text \<open>\<open>jnp.argsort\<close>: the positions in ascending order of their values, stable.\<close>

definition argsort :: "real list \<Rightarrow> nat list" where
  "argsort xs = sort_key (\<lambda>i. xs ! i) [0..<length xs]"

text \<open>
  \<open>jax.random.choice(key, a, (n_draws,))\<close>, with replacement: no draw gives the empty
  array, and a draw from an empty array raises \<open>ValueError\<close>.
\<close>

definition choice :: "prng \<Rightarrow> PRNGKey \<Rightarrow> 'a list \<Rightarrow> nat \<Rightarrow> error + 'a list" where
  "choice rng k a n_draws =
     (if n_draws = 0 then Inr []
      else if a = [] then Inl ValueError
      else Inr (map (\<lambda>j. a ! random_randint rng k (length a) j) [0..<n_draws]))"

definition deepcopy_InjectStatefulHyperparamsState ::
  "('hs, 'is) InjectStatefulHyperparamsState \<Rightarrow> ('hs, 'is) InjectStatefulHyperparamsState" where
  "deepcopy_InjectStatefulHyperparamsState st =
     \<lparr>count = count st, hyperparams = hyperparams st,
      hyperparams_states = hyperparams_states st, inner_state = inner_state st\<rparr>"

definition apply_hyperparams_to_workflow_state ::
  "HyperParams \<Rightarrow> ('a, 'e, 'hs, 'is) workflow_state \<Rightarrow> ('a, 'e, 'hs, 'is) workflow_state" where
  "apply_hyperparams_to_workflow_state hp workflow_state =
     (let os = opt_state workflow_state;
          os1 = deepcopy_InjectStatefulHyperparamsState os;
          os2 = os1\<lparr>hyperparams := (hyperparams os1)(''learning_rate'' \<mapsto> lr hp)\<rparr>
      in workflow_state\<lparr>opt_state := os2\<rparr>)"

text \<open>The local functions \<open>_exploit_and_explore_fn\<close>, \<open>_read\<close> and \<open>_write\<close>.\<close>

definition exploit_and_explore_fn ::
  "prng \<Rightarrow> PBTConfig \<Rightarrow> PRNGKey \<Rightarrow> HyperParams \<Rightarrow> ('a, 'e, 'hs, 'is) workflow_state
     \<Rightarrow> HyperParams \<times> ('a, 'e, 'hs, 'is) workflow_state" where
  "exploit_and_explore_fn rng config k top0 top_wf_state =
     (let new = \<lparr>lr = lr top0 * (1 + random_uniform rng k
                     (- perturb_factor config ''lr'') (perturb_factor config ''lr''))\<rparr>;
          new_wf_state = apply_hyperparams_to_workflow_state new top_wf_state
      in (new, new_wf_state))"

definition read_at :: "nat list \<Rightarrow> 'a list \<Rightarrow> 'a list" where
  "read_at indices xs = map (\<lambda>i. xs ! i) indices"

definition write_at :: "nat list \<Rightarrow> 'a list \<Rightarrow> 'a list \<Rightarrow> 'a list" where
  "write_at indices xs new = foldl (\<lambda>acc (i, v). acc[i := v]) xs (zip indices new)"

text \<open>
  \<open>exploit_and_explore\<close>. Its local values \<open>bottoms_indices\<close>, \<open>tops_indices\<close> and
  \<open>tops_choice_indices\<close> are definitions of their own; the slice \<open>indices[-tops_num:]\<close>
  is \<open>py_slice_from (- tops_num)\<close>, which for \<open>tops_num = 0\<close> is the slice \<open>indices[0:]\<close>.
\<close>

definition bottoms_indices :: "PBTConfig \<Rightarrow> real list \<Rightarrow> nat list" where
  "bottoms_indices config returns =
     (let bottoms_num = py_round (of_int (pop_size config) * bottom_ratio config);
          indices = argsort returns
      in py_slice_to bottoms_num indices)"

definition tops_indices :: "PBTConfig \<Rightarrow> real list \<Rightarrow> nat list" where
  "tops_indices config returns =
     (let tops_num = py_round (of_int (pop_size config) * top_ratio config);
          indices = argsort returns
      in py_slice_from (- tops_num) indices)"

definition tops_choice_indices :: "prng \<Rightarrow> PBTConfig \<Rightarrow> PRNGKey \<Rightarrow> real list \<Rightarrow> error + nat list" where
  "tops_choice_indices rng config k returns =
     (let exploit_key = random_split rng k 3 1
      in choice rng exploit_key (tops_indices config returns)
           (length (bottoms_indices config returns)))"

definition exploit_and_explore ::
  "prng \<Rightarrow> PBTConfig \<Rightarrow> PRNGKey \<Rightarrow> real list \<Rightarrow> HyperParams list
     \<Rightarrow> ('a, 'e, 'hs, 'is) workflow_state list
     \<Rightarrow> error + HyperParams list \<times> ('a, 'e, 'hs, 'is) workflow_state list" where
  "exploit_and_explore rng config k returns pop0 pop_wf_state =
     (let explore_key = random_split rng k 3 2
      in case tops_choice_indices rng config k returns of
           Inl e \<Rightarrow> Inl e
         | Inr choices \<Rightarrow>
             let news = map (\<lambda>(kk, top0, top_wf_state).
                               exploit_and_explore_fn rng config kk top0 top_wf_state)
                          (zip (split_keys rng explore_key (length (bottoms_indices config returns)))
                             (zip (read_at choices pop0) (read_at choices pop_wf_state)));
                 new_bottoms = map fst news;
                 new_bottoms_wf_state = map snd news
             in Inr (write_at (bottoms_indices config returns) pop0 new_bottoms,
                     write_at (bottoms_indices config returns) pop_wf_state new_bottoms_wf_state))"

text \<open>
  \<open>jax.lax.cond\<close> traces both branches, so an exception of either is raised whatever the
  predicate, and it refuses branches whose outputs differ in structure (\<open>struct\<close>).
\<close>

definition lax_cond ::
  "('r \<Rightarrow> 's) \<Rightarrow> bool \<Rightarrow> ('x \<Rightarrow> error + 'r) \<Rightarrow> ('x \<Rightarrow> error + 'r) \<Rightarrow> 'x \<Rightarrow> error + 'r" where
  "lax_cond struct pred true_fun false_fun operands =
     (case true_fun operands of
        Inl e \<Rightarrow> Inl e
      | Inr a \<Rightarrow>
          (case false_fun operands of
             Inl e \<Rightarrow> Inl e
           | Inr b \<Rightarrow> if struct a \<noteq> struct b then Inl TypeError else Inr (if pred then a else b)))"

text \<open>\<open>math.ceil(warmup_steps / per_iter_workflow_steps)\<close>, with exact division.\<close>

definition warmup_iterations :: "PBTConfig \<Rightarrow> error + int" where
  "warmup_iterations config =
     (if per_iter_workflow_steps config = 0 then Inl ZeroDivisionError
      else Inr \<lceil>real_of_int (warmup_steps config) / real_of_int (per_iter_workflow_steps config)\<rceil>)"

text \<open>
  The conditional of \<open>PBTWorkflow.step\<close>, lines 236 to 247: the branch \<open>_dummy_fn\<close> while
  \<open>iterations + 1\<close> is at most the number of warmup iterations, \<open>exploit_and_explore\<close>
  after. The counter is an unsigned 32-bit integer; a bound outside that range cannot be
  compared with it.
\<close>

definition dummy_fn ::
  "PRNGKey \<times> real list \<times> HyperParams list \<times> 'w list \<Rightarrow> error + HyperParams list \<times> 'w list" where
  "dummy_fn operands = (case operands of (k, returns, pop0, pop_wf_state) \<Rightarrow> Inr (pop0, pop_wf_state))"

definition warmup_or_exploit ::
  "prng \<Rightarrow> PBTConfig \<Rightarrow> 32 word \<Rightarrow> PRNGKey \<Rightarrow> real list \<Rightarrow> HyperParams list
     \<Rightarrow> ('a, 'e, 'hs, 'is) workflow_state list
     \<Rightarrow> error + HyperParams list \<times> ('a, 'e, 'hs, 'is) workflow_state list" where
  "warmup_or_exploit rng config its k returns pop0 pop_wf_state =
     (case warmup_iterations config of
        Inl e \<Rightarrow> Inl e
      | Inr bound \<Rightarrow>
          if bound < 0 \<or> 2 ^ 32 \<le> bound then Inl OverflowError
          else lax_cond (\<lambda>(p, w). (length p, length w)) (uint (its + 1) \<le> bound)
                 dummy_fn
                 (\<lambda>(k, returns, pop0, pop_wf_state).
                    exploit_and_explore rng config k returns pop0 pop_wf_state)
                 (k, returns, pop0, pop_wf_state))"

text \<open>
  The dispatch of a function of one member state over the population: \<open>jax.vmap(f)\<close>
  and \<open>partial(jax.lax.map, f)\<close> take the population as their one positional argument
  and apply \<open>f\<close> member by member; a call with other positional arguments raises.
\<close>

datatype 'w positional = FunctionArg | PopulationArg "'w list"

fun map_members :: "('w \<Rightarrow> error + 'm \<times> 'w) \<Rightarrow> 'w list \<Rightarrow> error + 'm list \<times> 'w list" where
  "map_members f [] = Inr ([], [])"
| "map_members f (w # ws) =
     (case f w of
        Inl e \<Rightarrow> Inl e
      | Inr (m, w') \<Rightarrow>
          (case map_members f ws of
             Inl e \<Rightarrow> Inl e
           | Inr (ms, ws') \<Rightarrow> Inr (m # ms, w' # ws')))"

definition vmap ::
  "('w \<Rightarrow> error + 'm \<times> 'w) \<Rightarrow> 'w positional list \<Rightarrow> error + 'm list \<times> 'w list" where
  "vmap f args =
     (case args of [PopulationArg members] \<Rightarrow> map_members f members | _ \<Rightarrow> Inl TypeError)"

definition lax_map_partial ::
  "('w \<Rightarrow> error + 'm \<times> 'w) \<Rightarrow> 'w positional list \<Rightarrow> error + 'm list \<times> 'w list" where
  "lax_map_partial f args =
     (case args of [PopulationArg members] \<Rightarrow> map_members f members | _ \<Rightarrow> Inl TypeError)"

text \<open>
  The local function \<open>_train_steps\<close> of \<open>PBTWorkflow.step\<close>: a scan of
  \<open>per_iter_workflow_steps\<close> steps of the target workflow, whose step is the parameter
  \<open>workflow_step\<close>, keeping the metrics of the last step.
\<close>

fun scan_steps :: "nat \<Rightarrow> ('w \<Rightarrow> error + 'm \<times> 'w) \<Rightarrow> 'w \<Rightarrow> error + 'm list \<times> 'w" where
  "scan_steps 0 f w = Inr ([], w)"
| "scan_steps (Suc n) f w =
     (case f w of
        Inl e \<Rightarrow> Inl e
      | Inr (m, w') \<Rightarrow>
          (case scan_steps n f w' of
             Inl e \<Rightarrow> Inl e
           | Inr (ms, w'') \<Rightarrow> Inr (m # ms, w'')))"

definition train_steps ::
  "PBTConfig \<Rightarrow> ('w \<Rightarrow> error + 'm \<times> 'w) \<Rightarrow> 'w \<Rightarrow> error + 'm \<times> 'w" where
  "train_steps config workflow_step wf_state =
     (if per_iter_workflow_steps config < 0 then Inl ValueError
      else case scan_steps (nat (per_iter_workflow_steps config)) workflow_step wf_state of
             Inl e \<Rightarrow> Inl e
           | Inr (train_metrics_trajectory, wf_state') \<Rightarrow>
               if train_metrics_trajectory = [] then Inl IndexError
               else Inr (last train_metrics_trajectory, wf_state'))"

text \<open>
  \<open>PBTWorkflow.step\<close>. The steps and the evaluation of the target workflow are the
  parameters \<open>workflow_step\<close> and \<open>workflow_evaluate\<close>. The source calls
  \<open>train_steps_fn(_train_steps, pop_workflow_state)\<close>, with the function as a first
  positional argument before the population, and \<open>eval_fn(pop_workflow_state)\<close>. With
  \<open>pmap_axis_name\<close> set, the source reads the name \<open>PMAP_AXIS_NAME\<close>, which the module
  does not import.
\<close>

definition step ::
  "prng \<Rightarrow> PBTConfig \<Rightarrow> string option
     \<Rightarrow> (('a, 'e, 'hs, 'is) workflow_state \<Rightarrow> error + 'tm \<times> ('a, 'e, 'hs, 'is) workflow_state)
     \<Rightarrow> (('a, 'e, 'hs, 'is) workflow_state
           \<Rightarrow> error + EvaluateMetric \<times> ('a, 'e, 'hs, 'is) workflow_state)
     \<Rightarrow> ('a, 'e, 'hs, 'is) PBTState \<Rightarrow> error + PBTTrainMetric \<times> ('a, 'e, 'hs, 'is) PBTState" where
  "step rng config pmap_axis_name workflow_step workflow_evaluate state =
     (let train_steps_fn =
            (if parallel_train config then vmap (train_steps config workflow_step)
             else lax_map_partial (train_steps config workflow_step))
      in if pmap_axis_name \<noteq> None then Inl NameError
         else
           case train_steps_fn [FunctionArg, PopulationArg (pop_workflow_state state)] of
             Inl e \<Rightarrow> Inl e
           | Inr (pop_train_metrics, trained) \<Rightarrow>
          (let eval_fn =
                 (if parallel_eval config then vmap workflow_evaluate
                  else lax_map_partial workflow_evaluate)
           in case eval_fn [PopulationArg trained] of
                Inl e \<Rightarrow> Inl e
              | Inr (pop_eval_metrics, evaluated) \<Rightarrow>
             (let returns = map episode_returns pop_eval_metrics;
                  k = random_split rng (pbt_key state) 2 0;
                  exploit_and_explore_key = random_split rng (pbt_key state) 2 1
              in case warmup_or_exploit rng config (iterations (pbt_metrics state))
                        exploit_and_explore_key returns (pop state) evaluated of
                   Inl e \<Rightarrow> Inl e
                 | Inr (pop', pop_wf_state') \<Rightarrow>
                     let workflow_metrics = (pbt_metrics state)
                           \<lparr>sampled_timesteps :=
                              sum_list (map (\<lambda>w. sampled_timesteps (metrics w)) pop_wf_state'),
                            iterations := iterations (pbt_metrics state) + 1\<rparr>;
                         train_metrics =
                           \<lparr>pop_episode_returns = map episode_returns pop_eval_metrics,
                            pop_episode_lengths = map episode_lengths pop_eval_metrics\<rparr>
                     in Inr (train_metrics,
                             state\<lparr>pbt_key := k, pbt_metrics := workflow_metrics,
                                   pop := pop', pop_workflow_state := pop_wf_state'\<rparr>))))"

text \<open>A pseudorandom generator for the examples: it draws the lower bound and the last entry.\<close>

definition demo_rng :: prng where
  "demo_rng = \<lparr>random_split = (\<lambda>k n i. (fst k, snd k + of_nat i + 1)),
               random_uniform = (\<lambda>k lo hi. lo),
               random_randint = (\<lambda>k n j. n - 1),
               random_permutation = (\<lambda>k n. rev [0..<n])\<rparr>"

text \<open>A generator that draws the middle of the interval.\<close>

definition mid_rng :: prng where
  "mid_rng = demo_rng\<lparr>random_uniform := (\<lambda>k lo hi. (lo + hi) / 2)\<rparr>"

text \<open>The contract of the draws: a uniform draw lies between its bounds, an index draw below its bound.\<close>

definition prng_ok :: "prng \<Rightarrow> bool" where
  "prng_ok rng =
     ((\<forall>k lo hi. lo \<le> hi \<longrightarrow> lo \<le> random_uniform rng k lo hi \<and> random_uniform rng k lo hi \<le> hi)
      \<and> (\<forall>k n j. 0 < n \<longrightarrow> random_randint rng k n j < n))"

definition demo_member :: "real \<Rightarrow> nat \<Rightarrow> (unit, unit, unit, real) workflow_state" where
  "demo_member rate n =
     \<lparr>key = (0, of_nat n), metrics = \<lparr>sampled_episodes = 0, sampled_timesteps = 0, iterations = 0\<rparr>,
      agent_state = (), env_state = (),
      opt_state = \<lparr>count = n, hyperparams = [''learning_rate'' \<mapsto> rate],
                   hyperparams_states = (), inner_state = real n\<rparr>\<rparr>"

definition demo_config :: "real \<Rightarrow> real \<Rightarrow> int \<Rightarrow> PBTConfig" where
  "demo_config b t n =
     \<lparr>pop_size = n, bottom_ratio = b, top_ratio = t, perturb_factor = (\<lambda>name. 1 / 5),
      warmup_steps = 10, per_iter_workflow_steps = 2,
      parallel_train = True, parallel_eval = True\<rparr>"

text \<open>
  A scheduler state of two members for the examples, with a step and an evaluation of the
  target workflow that leave a member as it is.
\<close>

definition demo_state :: "(unit, unit, unit, real) PBTState" where
  "demo_state =
     \<lparr>pbt_key = (0, 0),
      pbt_metrics = \<lparr>sampled_episodes = 0, sampled_timesteps = 0, iterations = 0\<rparr>,
      pop_workflow_state = [demo_member 1 1, demo_member 2 2],
      pop = [\<lparr>lr = 1\<rparr>, \<lparr>lr = 2\<rparr>]\<rparr>"

definition demo_workflow_step ::
  "(unit, unit, unit, real) workflow_state
     \<Rightarrow> error + unit \<times> (unit, unit, unit, real) workflow_state" where
  "demo_workflow_step member = Inr ((), member)"

definition demo_workflow_evaluate ::
  "(unit, unit, unit, real) workflow_state
     \<Rightarrow> error + EvaluateMetric \<times> (unit, unit, unit, real) workflow_state" where
  "demo_workflow_evaluate member =
     Inr (\<lparr>episode_returns = real (count (opt_state member)), episode_lengths = 10\<rparr>, member)"

section \<open>Properties of the gradient update wrappers\<close>

lemma agent_gradient_update_returns_input_state:
  "fst (snd (agent_gradient_update D pmean loss_fn optimizer ax os ag b k)) = ag"
  by (simp add: agent_gradient_update_def Let_def split: prod.splits)

lemma agent_gradient_update_opt_state:
  "snd (snd (agent_gradient_update D pmean loss_fn optimizer ax os ag b k))
     = snd (update optimizer
              (snd (loss_and_pgrad D pmean (\<lambda>ps (a, b, k). loss_fn (a\<lparr>params := ps\<rparr>) b k) ax
                     (params ag) (ag, b, k)))
              os)"
  by (simp add: agent_gradient_update_def Let_def split: prod.splits)

text \<open>
  C1 (fails on the code): at the test instance the update computes the new parameters
  9/10, and the agent state that \<open>agent_gradient_update\<close> returns still carries the
  input parameters 1; the optimizer state is the updated one.
\<close>

theorem agent_gradient_update_keeps_old_params:
  "agent_new_params demo_D (\<lambda>ax g. g) demo_loss demo_sgd None 0 demo_agent () () = 9 / 10
   \<and> agent_gradient_update demo_D (\<lambda>ax g. g) demo_loss demo_sgd None 0 demo_agent () ()
       = ((1, ()), demo_agent, Suc 0)
   \<and> params demo_agent = 1"
  by (simp add: agent_new_params_def agent_gradient_update_def loss_and_pgrad_def
      value_and_grad_def apply_updates_def demo_D_def demo_loss_def demo_sgd_def
      demo_agent_def Let_def)

text \<open>
  C9: the function returned by \<open>gradient_update\<close> does not depend on its second
  positional argument \<open>params\<close>: the loss, the gradient and the update are computed
  from \<open>args[0]\<close>.
\<close>

theorem gradient_update_ignores_params:
  "gradient_update D pmean loss_fn optimizer ax optimizer_state p1 args
     = gradient_update D pmean loss_fn optimizer ax optimizer_state p2 args"
  by (simp add: gradient_update_def Let_def)

section \<open>Properties of the advantage estimation\<close>

lemma scan_reverse_length: "length (snd (scan_reverse f c xs)) = length xs"
  by (induction xs) (auto split: prod.splits)

lemma scan_gae_fst:
  "fst (scan_reverse compute_gae_step c xs) =
     (if xs = [] then c else hd (snd (scan_reverse compute_gae_step c xs)))"
  by (cases xs) (auto simp: compute_gae_step_def Let_def split: prod.splits)

lemma scan_gae_Cons:
  "snd (scan_reverse compute_gae_step c (x # xs)) =
     map2 (+) (fst x) (map2 (*) (snd x) (fst (scan_reverse compute_gae_step c xs)))
       # snd (scan_reverse compute_gae_step c xs)"
  by (auto simp: compute_gae_step_def Let_def split: prod.splits)

lemma scan_gae_nth:
  "t < length xs \<Longrightarrow>
   snd (scan_reverse compute_gae_step c xs) ! t =
     map2 (+) (fst (xs ! t))
       (map2 (*) (snd (xs ! t))
          (if t + 1 < length xs then snd (scan_reverse compute_gae_step c xs) ! (t + 1) else c))"
proof (induction xs arbitrary: t)
  case Nil
  then show ?case by simp
next
  case (Cons x xs)
  show ?case
  proof (cases t)
    case 0
    have "fst (scan_reverse compute_gae_step c xs) =
        (if xs = [] then c else snd (scan_reverse compute_gae_step c xs) ! 0)"
      using scan_reverse_length [of compute_gae_step c xs]
      by (cases "snd (scan_reverse compute_gae_step c xs)") (auto simp: scan_gae_fst)
    with 0 show ?thesis
      by (simp only: scan_gae_Cons) auto
  next
    case (Suc n)
    with Cons.prems have "n < length xs" by simp
    from Cons.IH [OF this] Suc show ?thesis
      by (simp only: scan_gae_Cons) auto
  qed
qed

lemma scan_gae_row_length:
  "length c = s \<Longrightarrow> list_all (\<lambda>x. length (fst x) = s \<and> length (snd x) = s) xs \<Longrightarrow>
   length (fst (scan_reverse compute_gae_step c xs)) = s \<and>
   list_all (\<lambda>r. length r = s) (snd (scan_reverse compute_gae_step c xs))"
proof (induction xs)
  case Nil
  then show ?case by simp
next
  case (Cons x xs)
  then show ?case
    by (simp add: scan_gae_Cons scan_gae_fst del: scan_reverse.simps)
qed


lemma map2_nth: "b < length xs \<Longrightarrow> b < length ys \<Longrightarrow> map2 f xs ys ! b = f (xs ! b) (ys ! b)"
  by simp

lemma well_shaped_rows:
  "well_shaped a \<Longrightarrow> shape a = n # rest \<Longrightarrow>
   length (items a) = n \<and> (\<forall>t < n. length (items a ! t) = prod_list rest)"
  by (auto simp: well_shaped_def list_all_length)

lemma compute_gae_entries:
  assumes wr: "well_shaped rewards" and wd: "well_shaped dones" and wv: "well_shaped values"
    and sr: "shape rewards = T # rest" and sd: "shape dones = T # rest"
    and sv: "shape values = (T + 1) # rest"
  shows "\<exists>target adv.
      compute_gae dones rewards values gae_lambda discount = Inr (target, adv)
      \<and> shape target = T # rest \<and> shape adv = T # rest
      \<and> well_shaped target \<and> well_shaped adv
      \<and> (\<forall>t b. t < T \<and> b < prod_list rest \<longrightarrow>
            entry adv t b =
              (entry rewards t b + discount * (1 - entry dones t b) * entry values (t + 1) b
                 - entry values t b)
              + discount * gae_lambda * (1 - entry dones t b)
                  * (if t + 1 < T then entry adv (t + 1) b else 0)
            \<and> entry target t b = entry adv t b + entry values t b)"
proof -
  define s where "s = prod_list rest"
  define R where "R = items rewards"
  define Dn where "Dn = items dones"
  define V where "V = items values"
  define deltas where "deltas = map2 (map2 (-))
      (map2 (map2 (+)) R (map2 (map2 (*)) (map (map (\<lambda>d. discount * (1 - d))) Dn) (tl V)))
      (butlast V)"
  define factors where "factors = map (map (\<lambda>d. discount * gae_lambda * (1 - d))) Dn"
  define A where "A = snd (scan_reverse compute_gae_step (replicate s 0) (zip deltas factors))"
  define G where "G = map2 (map2 (+)) A (butlast V)"
  have lR: "length R = T" and rR: "\<And>t. t < T \<Longrightarrow> length (R ! t) = s"
    using well_shaped_rows [OF wr sr] by (auto simp: R_def s_def)
  have lD: "length Dn = T" and rD: "\<And>t. t < T \<Longrightarrow> length (Dn ! t) = s"
    using well_shaped_rows [OF wd sd] by (auto simp: Dn_def s_def)
  have lV: "length V = T + 1" and rV: "\<And>t. t < T + 1 \<Longrightarrow> length (V ! t) = s"
    using well_shaped_rows [OF wv sv] by (auto simp: V_def s_def)
  have tlV: "\<And>t. t < T \<Longrightarrow> tl V ! t = V ! (t + 1)"
    using lV by (simp add: nth_tl)
  have blV: "\<And>t. t < T \<Longrightarrow> butlast V ! t = V ! t"
    using lV by (simp add: nth_butlast)
  have ldel: "length deltas = T"
    using lR lD lV by (simp add: deltas_def)
  have lfac: "length factors = T"
    using lD by (simp add: factors_def)
  have del_t: "\<And>t. t < T \<Longrightarrow> deltas ! t =
      map2 (-) (map2 (+) (R ! t) (map2 (*) (map (\<lambda>d. discount * (1 - d)) (Dn ! t)) (V ! (t + 1))))
        (V ! t)"
    using lR lD lV tlV blV by (simp add: deltas_def)
  have fac_t: "\<And>t. t < T \<Longrightarrow> factors ! t = map (\<lambda>d. discount * gae_lambda * (1 - d)) (Dn ! t)"
    using lD by (simp add: factors_def)
  have rdel: "\<And>t. t < T \<Longrightarrow> length (deltas ! t) = s"
    using rR rD rV by (simp add: del_t)
  have rfac: "\<And>t. t < T \<Longrightarrow> length (factors ! t) = s"
    using rD by (simp add: fac_t)
  have del_tb: "\<And>t b. t < T \<Longrightarrow> b < s \<Longrightarrow> deltas ! t ! b =
      R ! t ! b + discount * (1 - Dn ! t ! b) * V ! (t + 1) ! b - V ! t ! b"
    using rR rD rV by (simp add: del_t)
  have fac_tb: "\<And>t b. t < T \<Longrightarrow> b < s \<Longrightarrow> factors ! t ! b =
      discount * gae_lambda * (1 - Dn ! t ! b)"
    using rD by (simp add: fac_t)
  have lA: "length A = T"
    using ldel lfac by (simp add: A_def scan_reverse_length)
  have "list_all (\<lambda>x. length (fst x) = s \<and> length (snd x) = s) (zip deltas factors)"
    using ldel lfac rdel rfac by (simp add: list_all_length)
  from scan_gae_row_length [OF _ this, of "replicate s 0"]
  have rowsA: "list_all (\<lambda>r. length r = s) A"
    by (simp add: A_def)
  then have rA: "\<And>t. t < T \<Longrightarrow> length (A ! t) = s"
    using lA by (simp add: list_all_length)
  have A_t: "\<And>t. t < T \<Longrightarrow> A ! t =
      map2 (+) (deltas ! t) (map2 (*) (factors ! t) (if t + 1 < T then A ! (t + 1) else replicate s 0))"
    using scan_gae_nth [of _ "zip deltas factors" "replicate s 0"] ldel lfac
    by (simp add: A_def)
  have A_tb: "\<And>t b. t < T \<Longrightarrow> b < s \<Longrightarrow> A ! t ! b =
      deltas ! t ! b + factors ! t ! b * (if t + 1 < T then A ! (t + 1) ! b else 0)"
  proof -
    fix t b assume t: "t < T" and b: "b < s"
    show "A ! t ! b = deltas ! t ! b + factors ! t ! b * (if t + 1 < T then A ! (t + 1) ! b else 0)"
    proof (cases "t + 1 < T")
      case True
      then have "length (A ! (t + 1)) = s" by (rule rA)
      with t b True rdel [OF t] rfac [OF t] show ?thesis
        by (simp add: A_t [OF t])
    next
      case False
      with t b rdel [OF t] rfac [OF t] show ?thesis
        by (simp add: A_t [OF t])
    qed
  qed
  have lG: "length G = T"
    using lA lV by (simp add: G_def)
  have G_t: "\<And>t. t < T \<Longrightarrow> G ! t = map2 (+) (A ! t) (V ! t)"
    using lA lV blV by (simp add: G_def)
  have rG: "\<And>t. t < T \<Longrightarrow> length (G ! t) = s"
    using rA rV by (simp add: G_t)
  have G_tb: "\<And>t b. t < T \<Longrightarrow> b < s \<Longrightarrow> G ! t ! b = A ! t ! b + V ! t ! b"
    using rA rV by (simp add: G_t)
  have res: "compute_gae dones rewards values gae_lambda discount
      = Inr (Array (T # rest) G, Array (T # rest) A)"
    using sr sd sv
    by (simp add: compute_gae_def Let_def G_def A_def deltas_def factors_def
        R_def Dn_def V_def s_def)
  have wG: "well_shaped (Array (T # rest) G)"
    using lG rG by (simp add: well_shaped_def list_all_length s_def)
  have wA: "well_shaped (Array (T # rest) A)"
    using lA rA by (simp add: well_shaped_def list_all_length s_def)
  have ent: "\<forall>t b. t < T \<and> b < prod_list rest \<longrightarrow>
            entry (Array (T # rest) A) t b =
              (entry rewards t b + discount * (1 - entry dones t b) * entry values (t + 1) b
                 - entry values t b)
              + discount * gae_lambda * (1 - entry dones t b)
                  * (if t + 1 < T then entry (Array (T # rest) A) (t + 1) b else 0)
            \<and> entry (Array (T # rest) G) t b = entry (Array (T # rest) A) t b + entry values t b"
    using A_tb G_tb del_tb fac_tb
    by (simp add: entry_def R_def [symmetric] Dn_def [symmetric] V_def [symmetric]
        s_def [symmetric])
  from res wG wA ent show ?thesis by simp
qed

text \<open>
  C2: on arrays \<open>rewards[T, ...]\<close>, \<open>dones[T, ...]\<close> and \<open>values[T + 1, ...]\<close>, \<open>compute_gae\<close>
  returns a pair (target, advantage) with
  \<open>advantage[t] = delta[t] + discount * gae_lambda * (1 - done[t]) * advantage[t + 1]\<close>,
  where \<open>advantage[T] = 0\<close> and
  \<open>delta[t] = reward[t] + discount * (1 - done[t]) * value[t + 1] - value[t]\<close>, and
  \<open>target[t] = advantage[t] + value[t]\<close>. For rewards \<open>[1, 1, 1]\<close>, values
  \<open>[0, 0, 0, 0]\<close>, dones \<open>[0, 0, 0]\<close>, \<open>gae_lambda = 1\<close> and \<open>discount = 1\<close> it returns the
  target \<open>[3, 2, 1]\<close> and the advantage \<open>[3, 2, 1]\<close>.
\<close>

theorem compute_gae_recursion:
  "(well_shaped rewards \<and> well_shaped dones \<and> well_shaped values
      \<and> shape rewards = T # rest \<and> shape dones = T # rest \<and> shape values = (T + 1) # rest
    \<longrightarrow> (\<exists>target adv.
          compute_gae dones rewards values gae_lambda discount = Inr (target, adv)
          \<and> shape target = T # rest \<and> shape adv = T # rest
          \<and> well_shaped target \<and> well_shaped adv
          \<and> (\<forall>t b. t < T \<and> b < prod_list rest \<longrightarrow>
                entry adv t b =
                  (entry rewards t b + discount * (1 - entry dones t b) * entry values (t + 1) b
                     - entry values t b)
                  + discount * gae_lambda * (1 - entry dones t b)
                      * (if t + 1 < T then entry adv (t + 1) b else 0)
                \<and> entry target t b = entry adv t b + entry values t b)))
   \<and> compute_gae (Array [3] [[0], [0], [0]]) (Array [3] [[1], [1], [1]])
         (Array [4] [[0], [0], [0], [0]]) 1 1
       = Inr (Array [3] [[3], [2], [1]], Array [3] [[3], [2], [1]])"
proof (intro conjI impI)
  assume "well_shaped rewards \<and> well_shaped dones \<and> well_shaped values
      \<and> shape rewards = T # rest \<and> shape dones = T # rest \<and> shape values = (T + 1) # rest"
  then show "\<exists>target adv.
          compute_gae dones rewards values gae_lambda discount = Inr (target, adv)
          \<and> shape target = T # rest \<and> shape adv = T # rest
          \<and> well_shaped target \<and> well_shaped adv
          \<and> (\<forall>t b. t < T \<and> b < prod_list rest \<longrightarrow>
                entry adv t b =
                  (entry rewards t b + discount * (1 - entry dones t b) * entry values (t + 1) b
                     - entry values t b)
                  + discount * gae_lambda * (1 - entry dones t b)
                      * (if t + 1 < T then entry adv (t + 1) b else 0)
                \<and> entry target t b = entry adv t b + entry values t b)"
    using compute_gae_entries by blast
next
  show "compute_gae (Array [3] [[0], [0], [0]]) (Array [3] [[1], [1], [1]])
         (Array [4] [[0], [0], [0], [0]]) 1 1
       = Inr (Array [3] [[3], [2], [1]], Array [3] [[3], [2], [1]])"
    by (simp add: compute_gae_def compute_gae_step_def Let_def)
qed

theorem compute_gae_recursion_witness:
  "well_shaped (Array [2, 2] [[1, 2], [3, 4]]) \<and> well_shaped (Array [2, 2] [[0, 1], [0, 0]])
   \<and> well_shaped (Array [3, 2] [[1, 1], [2, 2], [3, 3]])
   \<and> (\<exists>target adv.
         compute_gae (Array [2, 2] [[0, 1], [0, 0]]) (Array [2, 2] [[1, 2], [3, 4]])
           (Array [3, 2] [[1, 1], [2, 2], [3, 3]]) (1 / 2) (1 / 2) = Inr (target, adv)
         \<and> entry adv 1 0 = 5 / 2 \<and> entry adv 0 0 = 13 / 8 \<and> entry adv 0 1 = 1
         \<and> entry target 0 0 = 21 / 8)"
proof -
  let ?R = "Array [2, 2] [[1, 2], [3, 4]]"
  let ?D = "Array [2, 2] [[0, 1], [0, 0]]"
  let ?V = "Array [3, 2] [[1, 1], [2, 2], [3, 3]]"
  have h: "well_shaped ?R \<and> well_shaped ?D \<and> well_shaped ?V
      \<and> shape ?R = 2 # [2] \<and> shape ?D = 2 # [2] \<and> shape ?V = (2 + 1) # [2]"
    by (simp add: well_shaped_def)
  from compute_gae_recursion [of ?R ?D ?V 2 "[2]" "1 / 2" "1 / 2", THEN conjunct1, rule_format, OF h]
  obtain target adv where
    r: "compute_gae ?D ?R ?V (1 / 2) (1 / 2) = Inr (target, adv)"
    and e: "\<forall>t b. t < 2 \<and> b < prod_list [2] \<longrightarrow>
              entry adv t b =
                (entry ?R t b + 1 / 2 * (1 - entry ?D t b) * entry ?V (t + 1) b - entry ?V t b)
                + 1 / 2 * (1 / 2) * (1 - entry ?D t b)
                    * (if t + 1 < 2 then entry adv (t + 1) b else 0)
              \<and> entry target t b = entry adv t b + entry ?V t b"
    by blast
  have a10: "entry adv 1 0 = 5 / 2"
    using e [rule_format, of 1 0] by (simp add: entry_def)
  have a00: "entry adv 0 0 = 13 / 8"
    using e [rule_format, of 0 0] a10 by (simp add: entry_def)
  have a01: "entry adv 0 1 = 1"
    using e [rule_format, of 0 1] by (simp add: entry_def)
  have t00: "entry target 0 0 = 21 / 8"
    using e [rule_format, of 0 0] a00 by (simp add: entry_def)
  from h r a10 a00 a01 t00 show ?thesis by blast
qed

text \<open>
  C8: when \<open>rewards\<close> has the shape \<open>(T, *rest)\<close> and \<open>values\<close> has not the shape
  \<open>(T + 1, *rest)\<close>, in particular when its leading length is not \<open>T + 1\<close>,
  \<open>compute_gae\<close> raises \<open>AssertionError\<close> and returns no arrays.
\<close>

theorem compute_gae_shape_assertion:
  "shape rewards = T # rest \<Longrightarrow> shape values \<noteq> (T + 1) # rest \<Longrightarrow>
   compute_gae dones rewards values gae_lambda discount = Inl AssertionError"
  by (simp add: compute_gae_def)

theorem compute_gae_shape_assertion_witness:
  "shape (Array [3] [[1], [1], [1]]) = 3 # [] \<and> shape (Array [3] [[0], [0], [0]]) \<noteq> (3 + 1) # []
   \<and> compute_gae (Array [3] [[0], [0], [0]]) (Array [3] [[1], [1], [1]])
        (Array [3] [[0], [0], [0]]) 1 1 = Inl AssertionError"
  using compute_gae_shape_assertion [of "Array [3] [[1], [1], [1]]" 3 "[]"
      "Array [3] [[0], [0], [0]]" "Array [3] [[0], [0], [0]]" 1 1]
  by simp

section \<open>Properties of the evaluation\<close>

text \<open>
  C10: \<open>OnPolicyWorkflow.evaluate\<close> returns the input state with the key replaced by the
  first key of the split of the input key; the agent state, the environment state, the
  optimizer state and the metrics are those of the input.
\<close>

theorem evaluate_changes_key_only:
  "snd (evaluate rng ev ar n ax state) = state\<lparr>key := random_split rng (key state) 2 0\<rparr>
   \<and> agent_state (snd (evaluate rng ev ar n ax state)) = agent_state state
   \<and> env_state (snd (evaluate rng ev ar n ax state)) = env_state state
   \<and> opt_state (snd (evaluate rng ev ar n ax state)) = opt_state state
   \<and> metrics (snd (evaluate rng ev ar n ax state)) = metrics state"
  by (simp add: evaluate_def Let_def)

section \<open>Properties of the PPO minibatches\<close>

lemma build_from_config_not_divisible:
  "config ''num_envs'' = Some B \<Longrightarrow> config ''rollout_length'' = Some T \<Longrightarrow>
   config ''minibatch_size'' = Some m \<Longrightarrow> m \<noteq> 0 \<Longrightarrow> (B * T) mod m \<noteq> 0 \<Longrightarrow>
   config ''minibath_size'' = None \<Longrightarrow>
   build_from_config config = Inl (ConfigAttributeError ''minibath_size'')"
  by (simp add: build_from_config_def config_attr_def)

lemma length_chunks: "length (chunks n m xs) = n"
  by (induction n arbitrary: xs) auto

lemma chunks_sizes: "n * m \<le> length xs \<Longrightarrow> c \<in> set (chunks n m xs) \<Longrightarrow> length c = m"
proof (induction n arbitrary: xs)
  case 0
  then show ?case by simp
next
  case (Suc n)
  from Suc.prems(1) have a: "m \<le> length xs" and b: "n * m \<le> length (drop m xs)" by auto
  from Suc.prems(2) have "c = take m xs \<or> c \<in> set (chunks n m (drop m xs))" by simp
  then show ?case
  proof
    assume "c = take m xs"
    with a show ?thesis by simp
  next
    assume "c \<in> set (chunks n m (drop m xs))"
    with Suc.IH [OF b] show ?thesis .
  qed
qed

lemma concat_chunks: "concat (chunks n m xs) = take (n * m) xs"
proof (induction n arbitrary: xs)
  case 0
  then show ?case by simp
next
  case (Suc n)
  have "take m xs @ take (n * m) (drop m xs) = take (m + n * m) xs"
    by (simp add: take_add)
  with Suc show ?case by simp
qed

lemma get_shuffled_minibatch_truncates:
  assumes T: "config ''rollout_length'' = Some T" and B: "config ''num_envs'' = Some B"
    and m: "config ''minibatch_size'' = Some m" and mpos: "0 < m" and big: "m \<le> T * B"
    and lx: "int (length x) = T * B"
    and perm: "length (random_permutation rng k (length x)) = length x"
  shows "\<exists>mbs. get_shuffled_minibatch rng config k x = Inr mbs
      \<and> int (length mbs) = T * B div m
      \<and> list_all (\<lambda>mb. int (length mb) = m) mbs
      \<and> concat mbs = take (nat (T * B div m * m)) (permutation rng k x)"
proof -
  define n where "n = T * B div m"
  define p where "p = permutation rng k x"
  have lp: "int (length p) = T * B"
    using perm lx by (simp add: p_def permutation_def)
  have npos: "0 < n"
    using mpos big by (simp add: n_def pos_imp_zdiv_pos_iff)
  have nm: "n * m \<le> T * B"
  proof -
    have "T * B div m * m + T * B mod m = T * B" by (rule div_mult_mod_eq)
    moreover have "0 \<le> T * B mod m" using mpos by simp
    ultimately show ?thesis unfolding n_def by linarith
  qed
  have nm0: "0 \<le> n * m" using npos mpos by simp
  define q where "q = py_slice_to (n * m) p"
  have q: "q = take (nat (n * m)) p"
    using nm0 by (simp add: q_def py_slice_to_def)
  have lq: "int (length q) = n * m"
    using nm nm0 lp by (simp add: q)
  then have lqn: "length q = nat n * nat m"
    using npos mpos by (metis nat_int nat_mult_distrib less_imp_le)
  have dv: "length q div nat n = nat m"
    using lqn npos by simp
  have res: "get_shuffled_minibatch rng config k x = Inr (chunks (nat n) (nat m) q)"
    using T B m mpos npos lq dv
    by (simp add: get_shuffled_minibatch_def num_minibatches_def config_attr_def
        reshape_rows_def n_def [symmetric] p_def [symmetric] q_def [symmetric])
  have l: "int (length (chunks (nat n) (nat m) q)) = n"
    using npos by (simp add: length_chunks)
  have sz: "list_all (\<lambda>mb. int (length mb) = m) (chunks (nat n) (nat m) q)"
    using chunks_sizes [of "nat n" "nat m" q] lqn mpos by (auto simp: list_all_iff)
  have "concat (chunks (nat n) (nat m) q) = take (nat n * nat m) q"
    by (rule concat_chunks)
  also have "\<dots> = q" using lqn by simp
  finally have c: "concat (chunks (nat n) (nat m) q) = take (nat (n * m)) p"
    using q by simp
  from res l sz c show ?thesis
    by (simp add: n_def p_def)
qed

text \<open>
  C4 (fails on the code): for \<open>rollout_length = 3\<close>, \<open>num_envs = 1\<close> and
  \<open>minibatch_size = 2\<close> the construction does not log a warning: building the text
  of the warning reads the attribute \<open>minibath_size\<close>, which the configuration does not
  have, and raises. Where the two sizes divide, the construction succeeds with no warning.
\<close>

theorem build_from_config_warning_raises:
  "build_from_config [''num_envs'' \<mapsto> 1, ''rollout_length'' \<mapsto> 3, ''minibatch_size'' \<mapsto> 2]
     = Inl (ConfigAttributeError ''minibath_size'')
   \<and> fst (projr (build_from_config
        [''num_envs'' \<mapsto> 1, ''rollout_length'' \<mapsto> 4, ''minibatch_size'' \<mapsto> 2])) = []"
  by (simp add: build_from_config_def config_attr_def)

section \<open>Properties of the exploit and explore operator\<close>

lemma write_at_Nil [simp]: "write_at [] xs vs = xs" "write_at is xs [] = xs"
  by (simp_all add: write_at_def)

lemma write_at_Cons [simp]: "write_at (i # is) xs (v # vs) = write_at is (xs[i := v]) vs"
  by (simp add: write_at_def)

lemma length_write_at [simp]: "length (write_at is xs vs) = length xs"
proof (induction "is" arbitrary: xs vs)
  case Nil
  then show ?case by simp
next
  case (Cons i "is")
  then show ?case by (cases vs) simp_all
qed

lemma write_at_other: "i \<notin> set is \<Longrightarrow> write_at is xs vs ! i = xs ! i"
proof (induction "is" arbitrary: xs vs)
  case Nil
  then show ?case by simp
next
  case (Cons j "is")
  then show ?case by (cases vs) simp_all
qed

lemma write_at_written:
  "distinct is \<Longrightarrow> length vs = length is \<Longrightarrow> k < length is \<Longrightarrow> is ! k < length xs \<Longrightarrow>
   write_at is xs vs ! (is ! k) = vs ! k"
proof (induction "is" arbitrary: xs vs k)
  case Nil
  then show ?case by simp
next
  case (Cons i "is")
  from Cons.prems(2) obtain v vs' where vs: "vs = v # vs'" and l: "length vs' = length is"
    by (cases vs) auto
  show ?case
  proof (cases k)
    case 0
    with Cons.prems vs show ?thesis by (simp add: write_at_other)
  next
    case (Suc n)
    with Cons.prems have "distinct is" "n < length is" "is ! n < length (xs[i := v])"
      by auto
    from Cons.IH [OF this(1) l this(2) this(3)] Suc vs show ?thesis by simp
  qed
qed

lemma length_argsort [simp]: "length (argsort f) = length f"
  by (simp add: argsort_def)

lemma set_argsort [simp]: "set (argsort f) = {0..<length f}"
  by (simp add: argsort_def)

lemma distinct_argsort [simp]: "distinct (argsort f)"
  by (simp add: argsort_def)

lemma sorted_argsort: "sorted (map (\<lambda>i. f ! i) (argsort f))"
  by (simp add: argsort_def)

lemma argsort_ex: "argsort [5, 1, 9, 3, 7] = [1, 3, 0, 4, 2]"
  by code_simp

lemma bottoms_indices_take:
  "py_round (of_int (pop_size config) * bottom_ratio config) = int b \<Longrightarrow>
   bottoms_indices config returns = take b (argsort returns)"
  by (simp add: bottoms_indices_def py_slice_to_def)

lemma tops_indices_drop:
  "py_round (of_int (pop_size config) * top_ratio config) = int t \<Longrightarrow> 0 < t \<Longrightarrow>
   tops_indices config returns = drop (length returns - t) (argsort returns)"
  by (simp add: tops_indices_def py_slice_from_def nat_diff_distrib')

lemma tops_indices_zero:
  "py_round (of_int (pop_size config) * top_ratio config) = 0 \<Longrightarrow>
   tops_indices config returns = argsort returns"
  by (simp add: tops_indices_def py_slice_from_def)

lemma tops_choice_indices_ok:
  assumes "prng_ok rng" and "tops_indices config returns \<noteq> []"
  shows "\<exists>ds. tops_choice_indices rng config k returns = Inr ds
      \<and> length ds = length (bottoms_indices config returns)
      \<and> set ds \<subseteq> set (tops_indices config returns)"
proof -
  have "random_randint rng kk (length (tops_indices config returns)) j
      < length (tops_indices config returns)" for kk j
    using assms unfolding prng_ok_def by blast
  then have "tops_indices config returns
        ! random_randint rng kk (length (tops_indices config returns)) j
      \<in> set (tops_indices config returns)" for kk j
    by (rule nth_mem)
  then have "set (map (\<lambda>j. tops_indices config returns
        ! random_randint rng kk (length (tops_indices config returns)) j) [0..<n])
      \<subseteq> set (tops_indices config returns)" for kk n
    by (simp add: image_subset_iff)
  then show ?thesis
    using assms(2) by (simp add: tops_choice_indices_def choice_def Let_def)
qed

lemma tops_choice_indices_none:
  "bottoms_indices config returns = [] \<Longrightarrow> tops_choice_indices rng config k returns = Inr []"
  by (simp add: tops_choice_indices_def choice_def)

lemma exploit_and_explore_result:
  assumes c: "tops_choice_indices rng config k returns = Inr ds"
    and l: "length ds = length (bottoms_indices config returns)"
  shows "exploit_and_explore rng config k returns pop0 ws =
     Inr (write_at (bottoms_indices config returns) pop0
            (map (\<lambda>j. fst (exploit_and_explore_fn rng config
                    (random_split rng (random_split rng k 3 2) (length ds) j)
                    (pop0 ! (ds ! j)) (ws ! (ds ! j)))) [0..<length ds]),
          write_at (bottoms_indices config returns) ws
            (map (\<lambda>j. snd (exploit_and_explore_fn rng config
                    (random_split rng (random_split rng k 3 2) (length ds) j)
                    (pop0 ! (ds ! j)) (ws ! (ds ! j)))) [0..<length ds]))"
proof -
  have "map (\<lambda>(kk, top0, top_wf_state). exploit_and_explore_fn rng config kk top0 top_wf_state)
          (zip (split_keys rng (random_split rng k 3 2) (length ds))
             (zip (read_at ds pop0) (read_at ds ws)))
      = map (\<lambda>j. exploit_and_explore_fn rng config
                    (random_split rng (random_split rng k 3 2) (length ds) j)
                    (pop0 ! (ds ! j)) (ws ! (ds ! j))) [0..<length ds]"
    by (rule nth_equalityI) (simp_all add: split_keys_def read_at_def)
  then show ?thesis
    unfolding exploit_and_explore_def Let_def c l [symmetric] sum.case
    by (simp add: comp_def)
qed


lemma exploit_and_explore_no_bottoms:
  assumes "py_round (of_int (pop_size config) * bottom_ratio config) = 0"
  shows "exploit_and_explore rng config k returns pop0 ws = Inr (pop0, ws)"
proof -
  have b: "bottoms_indices config returns = []"
    using assms by (simp add: bottoms_indices_def py_slice_to_def)
  then have c: "tops_choice_indices rng config k returns = Inr []"
    by (rule tops_choice_indices_none)
  show ?thesis
    using exploit_and_explore_result [OF c, of pop0 ws] b by simp
qed

lemma sorted_split_le:
  assumes "sorted (map f xs)" and "i \<in> set (take n xs)" and "j \<in> set (drop n xs)"
  shows "f i \<le> f j"
proof -
  have "sorted (map f (take n xs) @ map f (drop n xs))"
    using assms(1) by (simp flip: map_append)
  then show ?thesis
    using assms(2,3) by (auto simp: sorted_append)
qed

lemma set_take_drop_cases:
  "j \<in> set xs \<Longrightarrow> j \<notin> set (take n xs) \<Longrightarrow> j \<in> set (drop n xs)"
  by (metis Un_iff append_take_drop_id set_append)

lemma set_drop_take_cases:
  "j \<in> set xs \<Longrightarrow> j \<notin> set (drop n xs) \<Longrightarrow> j \<in> set (take n xs)"
  by (metis Un_iff append_take_drop_id set_append)

lemma bottoms_lowest:
  assumes "i \<in> set (take b (argsort returns))" and "j < length returns"
    and "j \<notin> set (take b (argsort returns))"
  shows "returns ! i \<le> returns ! j"
proof -
  have "j \<in> set (argsort returns)" using assms(2) by simp
  then have "j \<in> set (drop b (argsort returns))"
    using assms(3) by (rule set_take_drop_cases)
  with sorted_argsort [of returns] assms(1) show ?thesis
    by (rule sorted_split_le)
qed

lemma tops_highest:
  assumes "i \<in> set (drop n (argsort returns))" and "j < length returns"
    and "j \<notin> set (drop n (argsort returns))"
  shows "returns ! j \<le> returns ! i"
proof -
  have "j \<in> set (argsort returns)" using assms(2) by simp
  then have "j \<in> set (take n (argsort returns))"
    using assms(3) by (rule set_drop_take_cases)
  with sorted_argsort [of returns] show ?thesis
    using assms(1) by (rule sorted_split_le)
qed

lemma bottoms_indices_props:
  "distinct (bottoms_indices config returns) \<and>
   set (bottoms_indices config returns) \<subseteq> {0..<length returns}"
proof -
  have "\<exists>n. bottoms_indices config returns = take n (argsort returns)"
    by (auto simp: bottoms_indices_def py_slice_to_def Let_def)
  then obtain n where "bottoms_indices config returns = take n (argsort returns)" ..
  then show ?thesis
    using set_take_subset [of n "argsort returns"] by simp
qed

lemma tops_indices_subset: "set (tops_indices config returns) \<subseteq> {0..<length returns}"
proof -
  have "\<exists>n. tops_indices config returns = drop n (argsort returns)"
    by (auto simp: tops_indices_def py_slice_from_def Let_def)
  then obtain n where "tops_indices config returns = drop n (argsort returns)" ..
  then show ?thesis
    using set_drop_subset [of n "argsort returns"] by simp
qed

lemma exploit_and_explore_replaced:
  assumes ok: "prng_ok rng" and lp: "length pop0 = length returns"
    and lw: "length ws = length returns" and tops: "tops_indices config returns \<noteq> []"
  shows "\<exists>pop' ws'.
      exploit_and_explore rng config k returns pop0 ws = Inr (pop', ws')
      \<and> length pop' = length pop0 \<and> length ws' = length ws
      \<and> (\<forall>i. i < length returns \<and> i \<notin> set (bottoms_indices config returns) \<longrightarrow>
            pop' ! i = pop0 ! i \<and> ws' ! i = ws ! i)
      \<and> (\<forall>i. i \<in> set (bottoms_indices config returns) \<longrightarrow>
            (\<exists>d kk. d \<in> set (tops_indices config returns)
               \<and> pop' ! i = fst (exploit_and_explore_fn rng config kk (pop0 ! d) (ws ! d))
               \<and> ws' ! i = snd (exploit_and_explore_fn rng config kk (pop0 ! d) (ws ! d))))"
proof -
  let ?B = "bottoms_indices config returns"
  from tops_choice_indices_ok [OF ok tops, of k] obtain ds where
    c: "tops_choice_indices rng config k returns = Inr ds"
    and l: "length ds = length ?B"
    and sub: "set ds \<subseteq> set (tops_indices config returns)"
    by blast
  let ?new = "\<lambda>j. exploit_and_explore_fn rng config
                    (random_split rng (random_split rng k 3 2) (length ds) j)
                    (pop0 ! (ds ! j)) (ws ! (ds ! j))"
  let ?pop' = "write_at ?B pop0 (map (\<lambda>j. fst (?new j)) [0..<length ds])"
  let ?ws' = "write_at ?B ws (map (\<lambda>j. snd (?new j)) [0..<length ds])"
  have res: "exploit_and_explore rng config k returns pop0 ws = Inr (?pop', ?ws')"
    by (rule exploit_and_explore_result [OF c l])
  have dB: "distinct ?B" and sB: "set ?B \<subseteq> {0..<length returns}"
    using bottoms_indices_props [of config returns] by simp_all
  have other: "\<forall>i. i < length returns \<and> i \<notin> set ?B \<longrightarrow> ?pop' ! i = pop0 ! i \<and> ?ws' ! i = ws ! i"
    by (simp add: write_at_other)
  have repl: "\<forall>i. i \<in> set ?B \<longrightarrow>
            (\<exists>d kk. d \<in> set (tops_indices config returns)
               \<and> ?pop' ! i = fst (exploit_and_explore_fn rng config kk (pop0 ! d) (ws ! d))
               \<and> ?ws' ! i = snd (exploit_and_explore_fn rng config kk (pop0 ! d) (ws ! d)))"
  proof (intro allI impI)
    fix i assume "i \<in> set ?B"
    then obtain j where j: "j < length ?B" and i: "i = ?B ! j"
      by (auto simp: in_set_conv_nth)
    have ilt: "?B ! j < length returns"
      using sB j by (metis atLeastLessThan_iff nth_mem subsetD)
    have jd: "j < length ds" using j l by simp
    have p: "?pop' ! (?B ! j) = fst (?new j)"
      using write_at_written [OF dB _ j, of "map (\<lambda>j. fst (?new j)) [0..<length ds]" pop0]
        l ilt lp jd by simp
    have w: "?ws' ! (?B ! j) = snd (?new j)"
      using write_at_written [OF dB _ j, of "map (\<lambda>j. snd (?new j)) [0..<length ds]" ws]
        l ilt lw jd by simp
    have "ds ! j \<in> set (tops_indices config returns)"
      using sub jd by (meson nth_mem subsetD)
    with p w i show "\<exists>d kk. d \<in> set (tops_indices config returns)
               \<and> ?pop' ! i = fst (exploit_and_explore_fn rng config kk (pop0 ! d) (ws ! d))
               \<and> ?ws' ! i = snd (exploit_and_explore_fn rng config kk (pop0 ! d) (ws ! d))"
      by blast
  qed
  from res other repl show ?thesis by simp
qed

lemma exploit_and_explore_fn_fst:
  "fst (exploit_and_explore_fn rng config kk hp w) =
     \<lparr>lr = lr hp * (1 + random_uniform rng kk (- perturb_factor config ''lr'')
                        (perturb_factor config ''lr''))\<rparr>"
  by (simp add: exploit_and_explore_fn_def Let_def)

lemma exploit_and_explore_fn_snd:
  "snd (exploit_and_explore_fn rng config kk hp w) =
     apply_hyperparams_to_workflow_state (fst (exploit_and_explore_fn rng config kk hp w)) w"
  by (simp add: exploit_and_explore_fn_def Let_def)

lemma prng_ok_randint: "prng_ok rng \<Longrightarrow> 0 < n \<Longrightarrow> random_randint rng k n j < n"
  unfolding prng_ok_def by blast

lemma prng_ok_uniform:
  "prng_ok rng \<Longrightarrow> lo \<le> hi \<Longrightarrow>
   lo \<le> random_uniform rng k lo hi \<and> random_uniform rng k lo hi \<le> hi"
  unfolding prng_ok_def by blast

lemma tops_indices_nonempty:
  assumes "py_round (of_int (pop_size config) * top_ratio config) = int t" and "0 < t"
    and "returns \<noteq> []"
  shows "tops_indices config returns \<noteq> []"
proof -
  have "0 < length returns" using assms(3) by simp
  with assms(2) have "length returns - t < length returns" by arith
  then show ?thesis
    by (simp add: tops_indices_drop [OF assms(1,2)])
qed

lemma demo_rng_ok: "prng_ok demo_rng"
  by (simp add: prng_ok_def demo_rng_def)

lemma mid_rng_ok: "prng_ok mid_rng"
  by (simp add: prng_ok_def mid_rng_def demo_rng_def)

lemma apply_hyperparams_opt_state:
  "opt_state (apply_hyperparams_to_workflow_state hp w) =
     (opt_state w)\<lparr>hyperparams := (hyperparams (opt_state w))(''learning_rate'' \<mapsto> lr hp)\<rparr>"
  by (simp add: apply_hyperparams_to_workflow_state_def
      deepcopy_InjectStatefulHyperparamsState_def Let_def)

lemma apply_hyperparams_frame:
  "key (apply_hyperparams_to_workflow_state hp w) = key w"
  "metrics (apply_hyperparams_to_workflow_state hp w) = metrics w"
  "agent_state (apply_hyperparams_to_workflow_state hp w) = agent_state w"
  "env_state (apply_hyperparams_to_workflow_state hp w) = env_state w"
  by (simp_all add: apply_hyperparams_to_workflow_state_def Let_def)

lemma exploit_and_explore_Inr_tops:
  assumes "exploit_and_explore rng config k returns pop0 ws = Inr r"
    and "bottoms_indices config returns \<noteq> []"
  shows "tops_indices config returns \<noteq> []"
proof
  assume "tops_indices config returns = []"
  with assms(2) have "tops_choice_indices rng config k returns = Inl ValueError"
    by (simp add: tops_choice_indices_def choice_def)
  with assms(1) show False
    by (simp add: exploit_and_explore_def)
qed

lemma tops_choice_indices_draws:
  assumes "tops_choice_indices rng config k returns = Inr ds"
    and "bottoms_indices config returns \<noteq> []"
  shows "ds = map (\<lambda>j. tops_indices config returns
              ! random_randint rng (random_split rng k 3 1)
                  (length (tops_indices config returns)) j)
            [0..<length (bottoms_indices config returns)]"
  using assms by (simp add: tops_choice_indices_def choice_def Let_def split: if_splits)

lemma exploit_and_explore_slot:
  assumes r: "exploit_and_explore rng config k returns pop0 ws = Inr (pop', ws')"
    and lp: "length pop0 = length returns" and lw: "length ws = length returns"
    and j: "j < length (bottoms_indices config returns)"
  shows "pop' ! (bottoms_indices config returns ! j) =
       fst (exploit_and_explore_fn rng config
              (random_split rng (random_split rng k 3 2)
                 (length (bottoms_indices config returns)) j)
              (pop0 ! (tops_indices config returns
                 ! random_randint rng (random_split rng k 3 1)
                     (length (tops_indices config returns)) j))
              (ws ! (tops_indices config returns
                 ! random_randint rng (random_split rng k 3 1)
                     (length (tops_indices config returns)) j)))
     \<and> ws' ! (bottoms_indices config returns ! j) =
       snd (exploit_and_explore_fn rng config
              (random_split rng (random_split rng k 3 2)
                 (length (bottoms_indices config returns)) j)
              (pop0 ! (tops_indices config returns
                 ! random_randint rng (random_split rng k 3 1)
                     (length (tops_indices config returns)) j))
              (ws ! (tops_indices config returns
                 ! random_randint rng (random_split rng k 3 1)
                     (length (tops_indices config returns)) j)))"
proof -
  let ?B = "bottoms_indices config returns"
  let ?T = "tops_indices config returns"
  let ?d = "\<lambda>j. ?T ! random_randint rng (random_split rng k 3 1) (length ?T) j"
  from j have bn: "?B \<noteq> []" by auto
  from r obtain ds where c: "tops_choice_indices rng config k returns = Inr ds"
    by (auto simp: exploit_and_explore_def Let_def split: sum.splits)
  from tops_choice_indices_draws [OF c bn] have ds: "ds = map ?d [0..<length ?B]" .
  then have l: "length ds = length ?B" by simp
  have dj: "ds ! j = ?d j" using ds j by simp
  let ?new = "\<lambda>j. exploit_and_explore_fn rng config
                    (random_split rng (random_split rng k 3 2) (length ds) j)
                    (pop0 ! (ds ! j)) (ws ! (ds ! j))"
  from exploit_and_explore_result [OF c l, of pop0 ws] r
  have p: "pop' = write_at ?B pop0 (map (\<lambda>j. fst (?new j)) [0..<length ds])"
    and w: "ws' = write_at ?B ws (map (\<lambda>j. snd (?new j)) [0..<length ds])"
    by simp_all
  have dB: "distinct ?B" and sB: "set ?B \<subseteq> {0..<length returns}"
    using bottoms_indices_props [of config returns] by simp_all
  have ilt: "?B ! j < length returns"
    using sB j by (metis atLeastLessThan_iff nth_mem subsetD)
  have jd: "j < length ds" using j l by simp
  have "pop' ! (?B ! j) = fst (?new j)"
    unfolding p
    using write_at_written [OF dB _ j, of "map (\<lambda>j. fst (?new j)) [0..<length ds]" pop0]
      l ilt lp jd by simp
  moreover have "ws' ! (?B ! j) = snd (?new j)"
    unfolding w
    using write_at_written [OF dB _ j, of "map (\<lambda>j. snd (?new j)) [0..<length ds]" ws]
      l ilt lw jd by simp
  ultimately show ?thesis
    by (simp add: dj l)
qed

lemma apply_hyperparams_state:
  "apply_hyperparams_to_workflow_state hp w =
     w\<lparr>opt_state := (opt_state w)
          \<lparr>hyperparams := (hyperparams (opt_state w))(''learning_rate'' \<mapsto> lr hp)\<rparr>\<rparr>"
  by (simp add: apply_hyperparams_to_workflow_state_def
      deepcopy_InjectStatefulHyperparamsState_def Let_def)

lemma exploit_and_explore_example:
  assumes "prng_ok rng" and "length pop0 = 5" and "length ws = 5" and "pop_size config = 5"
    and "bottom_ratio config = 1 / 5" and "top_ratio config = 1 / 5"
  shows "bottoms_indices config [5, 1, 9, 3, 7] = [1]"
    and "tops_indices config [5, 1, 9, 3, 7] = [2]"
    and "exploit_and_explore rng config k [5, 1, 9, 3, 7] pop0 ws =
           Inr (pop0[1 := \<lparr>lr = lr (pop0 ! 2)
                   * (1 + random_uniform rng (random_split rng (random_split rng k 3 2) 1 0)
                           (- perturb_factor config ''lr'') (perturb_factor config ''lr''))\<rparr>],
                ws[1 := (ws ! 2)\<lparr>opt_state := (opt_state (ws ! 2))
                   \<lparr>hyperparams := (hyperparams (opt_state (ws ! 2)))
                      (''learning_rate'' \<mapsto> lr (pop0 ! 2)
                   * (1 + random_uniform rng (random_split rng (random_split rng k 3 2) 1 0)
                           (- perturb_factor config ''lr'') (perturb_factor config ''lr'')))\<rparr>\<rparr>])"
proof -
  note ps = assms(4) and br = assms(5) and tr = assms(6)
  have a: "argsort [5, 1, 9, 3, 7] = [1, 3, 0, 4, 2]" by code_simp
  have rb: "py_round (of_int (pop_size config) * bottom_ratio config) = int 1"
    unfolding ps br by (simp add: py_round_def)
  have rt: "py_round (of_int (pop_size config) * top_ratio config) = int 1"
    unfolding ps tr by (simp add: py_round_def)
  show B: "bottoms_indices config [5, 1, 9, 3, 7] = [1]"
    unfolding bottoms_indices_take [OF rb] a by simp
  show T: "tops_indices config [5, 1, 9, 3, 7] = [2]"
    unfolding tops_indices_drop [OF rt zero_less_one] a by simp
  have "random_randint rng (random_split rng k 3 1) 1 0 < 1"
    using assms(1) by (rule prng_ok_randint) simp
  then have c: "tops_choice_indices rng config k [5, 1, 9, 3, 7] = Inr [2]"
    by (simp add: tops_choice_indices_def choice_def B T)
  from exploit_and_explore_result [OF c, of pop0 ws]
  have "exploit_and_explore rng config k [5, 1, 9, 3, 7] pop0 ws =
      Inr (pop0[1 := fst (exploit_and_explore_fn rng config
                (random_split rng (random_split rng k 3 2) 1 0) (pop0 ! 2) (ws ! 2))],
           ws[1 := snd (exploit_and_explore_fn rng config
                (random_split rng (random_split rng k 3 2) 1 0) (pop0 ! 2) (ws ! 2))])"
    by (simp add: B)
  then show "exploit_and_explore rng config k [5, 1, 9, 3, 7] pop0 ws =
           Inr (pop0[1 := \<lparr>lr = lr (pop0 ! 2)
                   * (1 + random_uniform rng (random_split rng (random_split rng k 3 2) 1 0)
                           (- perturb_factor config ''lr'') (perturb_factor config ''lr''))\<rparr>],
                ws[1 := (ws ! 2)\<lparr>opt_state := (opt_state (ws ! 2))
                   \<lparr>hyperparams := (hyperparams (opt_state (ws ! 2)))
                      (''learning_rate'' \<mapsto> lr (pop0 ! 2)
                   * (1 + random_uniform rng (random_split rng (random_split rng k 3 2) 1 0)
                           (- perturb_factor config ''lr'') (perturb_factor config ''lr'')))\<rparr>\<rparr>])"
    by (simp add: exploit_and_explore_fn_snd exploit_and_explore_fn_fst apply_hyperparams_state)
qed

text \<open>
  C3 (fails on the code): with \<open>pop_size = 2\<close>, \<open>bottom_ratio = 1/2\<close> and \<open>top_ratio = 0\<close>
  the number of tops is 0 and the number of bottoms is 1, and the operator replaces the
  member of fitness 1: the slice \<open>indices[-0:]\<close> offers the whole population as donors, the
  member of fitness 2 is drawn, and its state is written over the other with the learning
  rate \<open>2 * (1 - 1/5)\<close>.
\<close>

theorem exploit_and_explore_no_tops_replaces:
  "py_round (of_int (pop_size (demo_config (1 / 2) 0 2)) * top_ratio (demo_config (1 / 2) 0 2)) = 0
   \<and> py_round (of_int (pop_size (demo_config (1 / 2) 0 2)) * bottom_ratio (demo_config (1 / 2) 0 2)) = 1
   \<and> (case exploit_and_explore demo_rng (demo_config (1 / 2) 0 2) (0, 0) [1, 2]
            [\<lparr>lr = 1\<rparr>, \<lparr>lr = 2\<rparr>] [demo_member 1 0, demo_member 2 1] of
        Inl e \<Rightarrow> False
      | Inr (pop', ws') \<Rightarrow>
          map lr pop' = [8 / 5, 2]
          \<and> map (\<lambda>w. hyperparams (opt_state w) ''learning_rate'') ws' = [Some (8 / 5), Some 2]
          \<and> map (\<lambda>w. count (opt_state w)) ws' = [1, 1])"
  by code_simp

text \<open>
  C6 (fails on the code): with \<open>pop_size = 2\<close> and \<open>top_ratio = 0\<close> the number of tops is
  \<open>round(2 * 0) = 0\<close>, and the donor candidates of \<open>exploit_and_explore\<close> are not the 0
  members of highest fitness but both members: the member of fitness 2 is drawn as the
  donor of the bottom slot, and with another draw the member of lowest fitness is drawn
  as its own donor. With at least one top the bottoms are the first
  \<open>round(P * bottom_ratio)\<close> and the tops the last \<open>round(P * top_ratio)\<close> positions of the
  ascending order (\<open>bottoms_indices_take\<close>, \<open>tops_indices_drop\<close>, \<open>bottoms_lowest\<close>,
  \<open>tops_highest\<close>), and for the fitness \<open>[5, 1, 9, 3, 7]\<close> with both ratios \<open>1/5\<close> the
  state of the member of fitness 9 is written to the slot of the member of fitness 1
  (\<open>exploit_and_explore_example\<close>).
\<close>

theorem tops_indices_no_tops_is_population:
  "py_round (of_int (pop_size (demo_config (1 / 2) 0 2)) * top_ratio (demo_config (1 / 2) 0 2)) = 0
   \<and> length (tops_indices (demo_config (1 / 2) 0 2) [1, 2]) = 2
   \<and> tops_indices (demo_config (1 / 2) 0 2) [1, 2] = [0, 1]
   \<and> bottoms_indices (demo_config (1 / 2) 0 2) [1, 2] = [0]
   \<and> tops_choice_indices demo_rng (demo_config (1 / 2) 0 2) (0, 0) [1, 2] = Inr [1]
   \<and> tops_choice_indices (demo_rng\<lparr>random_randint := (\<lambda>k n j. 0)\<rparr>)
        (demo_config (1 / 2) 0 2) (0, 0) [1, 2] = Inr [0]"
  by code_simp

text \<open>
  C5 (amended): let \<open>exploit_and_explore\<close> return, and let \<open>i\<close> be the \<open>j\<close>-th bottom
  slot, \<open>d\<close> the donor drawn for it among the tops, and \<open>u\<close> the draw of
  \<open>jax.random.uniform\<close> for it between \<open>- perturb_factor\<close> and \<open>perturb_factor\<close>. Then the
  count, the inner state and the hyperparameter schedule states of the optimizer state of
  member \<open>i\<close> are the donor's, its hyperparameters are the donor's with \<open>learning_rate\<close>
  set to the donor's \<open>lr\<close> times \<open>1 + u\<close>, every other field of its state is the donor's,
  and for \<open>perturb_factor = 0\<close> the learning rate is the donor's \<open>lr\<close>.
\<close>

theorem exploit_and_explore_optimizer_frame:
  "prng_ok rng \<and> length pop0 = length returns \<and> length ws = length returns
     \<and> 0 \<le> perturb_factor config ''lr''
     \<and> exploit_and_explore rng config k returns pop0 ws = Inr (pop', ws')
     \<and> j < length (bottoms_indices config returns)
   \<longrightarrow> (let i = bottoms_indices config returns ! j;
            d = tops_indices config returns
                  ! random_randint rng (random_split rng k 3 1)
                      (length (tops_indices config returns)) j;
            u = random_uniform rng
                  (random_split rng (random_split rng k 3 2)
                     (length (bottoms_indices config returns)) j)
                  (- perturb_factor config ''lr'') (perturb_factor config ''lr'')
        in d \<in> set (tops_indices config returns)
           \<and> - perturb_factor config ''lr'' \<le> u \<and> u \<le> perturb_factor config ''lr''
           \<and> count (opt_state (ws' ! i)) = count (opt_state (ws ! d))
           \<and> inner_state (opt_state (ws' ! i)) = inner_state (opt_state (ws ! d))
           \<and> hyperparams_states (opt_state (ws' ! i)) = hyperparams_states (opt_state (ws ! d))
           \<and> hyperparams (opt_state (ws' ! i)) =
                (hyperparams (opt_state (ws ! d)))(''learning_rate'' \<mapsto> lr (pop0 ! d) * (1 + u))
           \<and> ws' ! i =
                (ws ! d)\<lparr>opt_state := (opt_state (ws ! d))
                   \<lparr>hyperparams := (hyperparams (opt_state (ws ! d)))
                      (''learning_rate'' \<mapsto> lr (pop0 ! d) * (1 + u))\<rparr>\<rparr>
           \<and> pop' ! i = \<lparr>lr = lr (pop0 ! d) * (1 + u)\<rparr>
           \<and> (perturb_factor config ''lr'' = 0 \<longrightarrow>
                hyperparams (opt_state (ws' ! i)) ''learning_rate'' = Some (lr (pop0 ! d))))"
proof
  assume h: "prng_ok rng \<and> length pop0 = length returns \<and> length ws = length returns
     \<and> 0 \<le> perturb_factor config ''lr''
     \<and> exploit_and_explore rng config k returns pop0 ws = Inr (pop', ws')
     \<and> j < length (bottoms_indices config returns)"
  then have ok: "prng_ok rng" and lp: "length pop0 = length returns"
    and lw: "length ws = length returns" and pf: "0 \<le> perturb_factor config ''lr''"
    and r: "exploit_and_explore rng config k returns pop0 ws = Inr (pop', ws')"
    and j: "j < length (bottoms_indices config returns)"
    by blast+
  define i where "i = bottoms_indices config returns ! j"
  define d where "d = tops_indices config returns
                  ! random_randint rng (random_split rng k 3 1)
                      (length (tops_indices config returns)) j"
  define u where "u = random_uniform rng
                  (random_split rng (random_split rng k 3 2)
                     (length (bottoms_indices config returns)) j)
                  (- perturb_factor config ''lr'') (perturb_factor config ''lr'')"
  from j have "bottoms_indices config returns \<noteq> []" by auto
  with r have tops: "tops_indices config returns \<noteq> []"
    by (rule exploit_and_explore_Inr_tops)
  then have "random_randint rng (random_split rng k 3 1) (length (tops_indices config returns)) j
      < length (tops_indices config returns)"
    using ok by (intro prng_ok_randint) simp_all
  then have dT: "d \<in> set (tops_indices config returns)"
    unfolding d_def by (rule nth_mem)
  have ub: "- perturb_factor config ''lr'' \<le> u \<and> u \<le> perturb_factor config ''lr''"
    unfolding u_def using ok by (rule prng_ok_uniform) (use pf in simp)
  from exploit_and_explore_slot [OF r lp lw j]
  have a: "pop' ! i = \<lparr>lr = lr (pop0 ! d) * (1 + u)\<rparr>"
    and c: "ws' ! i = apply_hyperparams_to_workflow_state (pop' ! i) (ws ! d)"
    by (simp_all add: exploit_and_explore_fn_fst exploit_and_explore_fn_snd i_def d_def u_def)
  have w: "ws' ! i = (ws ! d)\<lparr>opt_state := (opt_state (ws ! d))
                   \<lparr>hyperparams := (hyperparams (opt_state (ws ! d)))
                      (''learning_rate'' \<mapsto> lr (pop0 ! d) * (1 + u))\<rparr>\<rparr>"
    by (simp add: c apply_hyperparams_state a)
  have z: "perturb_factor config ''lr'' = 0 \<longrightarrow>
                hyperparams (opt_state (ws' ! i)) ''learning_rate'' = Some (lr (pop0 ! d))"
  proof
    assume "perturb_factor config ''lr'' = 0"
    with ub have "u = 0" by simp
    then show "hyperparams (opt_state (ws' ! i)) ''learning_rate'' = Some (lr (pop0 ! d))"
      by (simp add: w)
  qed
  have "d \<in> set (tops_indices config returns)
           \<and> - perturb_factor config ''lr'' \<le> u \<and> u \<le> perturb_factor config ''lr''
           \<and> count (opt_state (ws' ! i)) = count (opt_state (ws ! d))
           \<and> inner_state (opt_state (ws' ! i)) = inner_state (opt_state (ws ! d))
           \<and> hyperparams_states (opt_state (ws' ! i)) = hyperparams_states (opt_state (ws ! d))
           \<and> hyperparams (opt_state (ws' ! i)) =
                (hyperparams (opt_state (ws ! d)))(''learning_rate'' \<mapsto> lr (pop0 ! d) * (1 + u))
           \<and> ws' ! i =
                (ws ! d)\<lparr>opt_state := (opt_state (ws ! d))
                   \<lparr>hyperparams := (hyperparams (opt_state (ws ! d)))
                      (''learning_rate'' \<mapsto> lr (pop0 ! d) * (1 + u))\<rparr>\<rparr>
           \<and> pop' ! i = \<lparr>lr = lr (pop0 ! d) * (1 + u)\<rparr>
           \<and> (perturb_factor config ''lr'' = 0 \<longrightarrow>
                hyperparams (opt_state (ws' ! i)) ''learning_rate'' = Some (lr (pop0 ! d)))"
    using dT ub a z by (simp add: w)
  then show "let i = bottoms_indices config returns ! j;
            d = tops_indices config returns
                  ! random_randint rng (random_split rng k 3 1)
                      (length (tops_indices config returns)) j;
            u = random_uniform rng
                  (random_split rng (random_split rng k 3 2)
                     (length (bottoms_indices config returns)) j)
                  (- perturb_factor config ''lr'') (perturb_factor config ''lr'')
        in d \<in> set (tops_indices config returns)
           \<and> - perturb_factor config ''lr'' \<le> u \<and> u \<le> perturb_factor config ''lr''
           \<and> count (opt_state (ws' ! i)) = count (opt_state (ws ! d))
           \<and> inner_state (opt_state (ws' ! i)) = inner_state (opt_state (ws ! d))
           \<and> hyperparams_states (opt_state (ws' ! i)) = hyperparams_states (opt_state (ws ! d))
           \<and> hyperparams (opt_state (ws' ! i)) =
                (hyperparams (opt_state (ws ! d)))(''learning_rate'' \<mapsto> lr (pop0 ! d) * (1 + u))
           \<and> ws' ! i =
                (ws ! d)\<lparr>opt_state := (opt_state (ws ! d))
                   \<lparr>hyperparams := (hyperparams (opt_state (ws ! d)))
                      (''learning_rate'' \<mapsto> lr (pop0 ! d) * (1 + u))\<rparr>\<rparr>
           \<and> pop' ! i = \<lparr>lr = lr (pop0 ! d) * (1 + u)\<rparr>
           \<and> (perturb_factor config ''lr'' = 0 \<longrightarrow>
                hyperparams (opt_state (ws' ! i)) ''learning_rate'' = Some (lr (pop0 ! d)))"
    unfolding Let_def i_def d_def u_def .
qed

theorem exploit_and_explore_optimizer_frame_witness:
  "prng_ok demo_rng \<and> 0 \<le> perturb_factor (demo_config (1 / 5) (1 / 5) 5) ''lr''
   \<and> 0 < length (bottoms_indices (demo_config (1 / 5) (1 / 5) 5) [5, 1, 9, 3, 7])
   \<and> bottoms_indices (demo_config (1 / 5) (1 / 5) 5) [5, 1, 9, 3, 7] ! 0 = 1
   \<and> (\<exists>pop' ws'.
        exploit_and_explore demo_rng (demo_config (1 / 5) (1 / 5) 5) (0, 0) [5, 1, 9, 3, 7]
            (map (\<lambda>i. \<lparr>lr = real i\<rparr>) [1, 2, 3, 4, 5])
            (map (\<lambda>i. demo_member (real i) i) [1, 2, 3, 4, 5]) = Inr (pop', ws')
        \<and> count (opt_state (ws' ! 1)) = 3
        \<and> inner_state (opt_state (ws' ! 1)) = 3
        \<and> hyperparams (opt_state (ws' ! 1)) ''learning_rate'' = Some (12 / 5)
        \<and> key (ws' ! 1) = key (demo_member 3 3)
        \<and> pop' ! 1 = \<lparr>lr = 12 / 5\<rparr>)"
proof -
  let ?C = "demo_config (1 / 5) (1 / 5) 5"
  let ?R = "[5, 1, 9, 3, 7] :: real list"
  let ?P = "map (\<lambda>i. \<lparr>lr = real i\<rparr>) [1, 2, 3, 4, 5]"
  let ?W = "map (\<lambda>i. demo_member (real i) i) [1, 2, 3, 4, 5] :: (unit, unit, unit, real) workflow_state list"
  have B: "bottoms_indices ?C ?R = [1]" by code_simp
  have T: "tops_indices ?C ?R = [2]" by code_simp
  have pf: "perturb_factor ?C ''lr'' = 1 / 5" by (simp add: demo_config_def)
  have lp: "length ?P = length ?R" and lw: "length ?W = length ?R" by simp_all
  have tn: "tops_indices ?C ?R \<noteq> []" by (simp add: T)
  from exploit_and_explore_replaced [OF demo_rng_ok lp lw tn, of "(0, 0)"]
  obtain pop' ws' where r: "exploit_and_explore demo_rng ?C (0, 0) ?R ?P ?W = Inr (pop', ws')"
    by blast
  have h: "prng_ok demo_rng \<and> length ?P = length ?R \<and> length ?W = length ?R
     \<and> 0 \<le> perturb_factor ?C ''lr''
     \<and> exploit_and_explore demo_rng ?C (0, 0) ?R ?P ?W = Inr (pop', ws')
     \<and> 0 < length (bottoms_indices ?C ?R)"
    using demo_rng_ok r by (simp add: B pf)
  from exploit_and_explore_optimizer_frame [where rng = demo_rng and config = ?C
      and returns = ?R and ?pop0.0 = ?P and ws = ?W and k = "(0, 0)" and pop' = pop'
      and ws' = ws' and j = 0, rule_format, OF h]
  have c: "count (opt_state (ws' ! 1)) = count (opt_state (?W ! 2))"
    and n: "inner_state (opt_state (ws' ! 1)) = inner_state (opt_state (?W ! 2))"
    and w: "ws' ! 1 = (?W ! 2)\<lparr>opt_state := (opt_state (?W ! 2))
                   \<lparr>hyperparams := (hyperparams (opt_state (?W ! 2)))
                      (''learning_rate'' \<mapsto> lr (?P ! 2) * (1 + - (1 / 5)))\<rparr>\<rparr>"
    and l: "pop' ! 1 = \<lparr>lr = lr (?P ! 2) * (1 + - (1 / 5))\<rparr>"
    unfolding Let_def B T pf by (simp_all add: demo_rng_def)
  have "count (opt_state (ws' ! 1)) = 3" "inner_state (opt_state (ws' ! 1)) = 3"
    "hyperparams (opt_state (ws' ! 1)) ''learning_rate'' = Some (12 / 5)"
    "key (ws' ! 1) = key (demo_member 3 3)"
    "pop' ! 1 = \<lparr>lr = 12 / 5\<rparr>"
    using c n l w by (simp_all add: demo_member_def)
  moreover have "0 < length (bottoms_indices ?C ?R)" "bottoms_indices ?C ?R ! 0 = 1"
    by (simp_all add: B)
  moreover have "0 \<le> perturb_factor ?C ''lr''" by (simp add: pf)
  ultimately show ?thesis using demo_rng_ok r by blast
qed

text \<open>
  C5 as stated fails: with \<open>perturb_factor = 1/5\<close> and a generator whose uniform draw is
  the middle of its interval, the replaced member of the example gets the learning rate 3
  of its donor.
\<close>

theorem exploit_and_explore_same_rate_counterexample:
  "prng_ok mid_rng
   \<and> perturb_factor (demo_config (1 / 5) (1 / 5) 5) ''lr'' \<noteq> 0
   \<and> bottoms_indices (demo_config (1 / 5) (1 / 5) 5) [5, 1, 9, 3, 7] = [1]
   \<and> tops_indices (demo_config (1 / 5) (1 / 5) 5) [5, 1, 9, 3, 7] = [2]
   \<and> (case exploit_and_explore mid_rng (demo_config (1 / 5) (1 / 5) 5) (0, 0) [5, 1, 9, 3, 7]
            (map (\<lambda>i. \<lparr>lr = real i\<rparr>) [1, 2, 3, 4, 5])
            (map (\<lambda>i. demo_member (real i) i) [1, 2, 3, 4, 5]) of
         Inl e \<Rightarrow> False
       | Inr (pop', ws') \<Rightarrow>
           lr (pop' ! 1) = 3
           \<and> hyperparams (opt_state (ws' ! 1)) ''learning_rate'' = Some 3
           \<and> hyperparams (opt_state (demo_member 3 3)) ''learning_rate'' = Some 3
           \<and> count (opt_state (ws' ! 1)) = 3)"
proof -
  have "perturb_factor (demo_config (1 / 5) (1 / 5) 5) ''lr'' \<noteq> 0"
    by (simp add: demo_config_def)
  moreover have "bottoms_indices (demo_config (1 / 5) (1 / 5) 5) [5, 1, 9, 3, 7] = [1]"
    by code_simp
  moreover have "tops_indices (demo_config (1 / 5) (1 / 5) 5) [5, 1, 9, 3, 7] = [2]"
    by code_simp
  moreover have "(case exploit_and_explore mid_rng (demo_config (1 / 5) (1 / 5) 5) (0, 0) [5, 1, 9, 3, 7]
            (map (\<lambda>i. \<lparr>lr = real i\<rparr>) [1, 2, 3, 4, 5])
            (map (\<lambda>i. demo_member (real i) i) [1, 2, 3, 4, 5]) of
         Inl e \<Rightarrow> False
       | Inr (pop', ws') \<Rightarrow>
           lr (pop' ! 1) = 3
           \<and> hyperparams (opt_state (ws' ! 1)) ''learning_rate'' = Some 3
           \<and> hyperparams (opt_state (demo_member 3 3)) ''learning_rate'' = Some 3
           \<and> count (opt_state (ws' ! 1)) = 3)"
    by code_simp
  ultimately show ?thesis using mid_rng_ok by blast
qed

section \<open>Properties of the warmup gate\<close>

lemma exploit_and_explore_lengths:
  assumes "exploit_and_explore rng config k returns pop0 ws = Inr (pop', ws')"
  shows "length pop' = length pop0 \<and> length ws' = length ws"
  using assms by (auto simp: exploit_and_explore_def Let_def split: sum.splits)

lemma warmup_or_exploit_cases:
  assumes r: "warmup_or_exploit rng config its k returns pop0 ws = Inr (pop', ws')"
    and b: "warmup_iterations config = Inr bound"
  shows "length pop' = length pop0 \<and> length ws' = length ws
     \<and> (if uint (its + 1) \<le> bound then pop' = pop0 \<and> ws' = ws
         else exploit_and_explore rng config k returns pop0 ws = Inr (pop', ws'))"
proof -
  from r b have c: "lax_cond (\<lambda>(p, w). (length p, length w)) (uint (its + 1) \<le> bound) dummy_fn
        (\<lambda>(k, returns, pop0, pop_wf_state). exploit_and_explore rng config k returns pop0 pop_wf_state)
        (k, returns, pop0, ws) = Inr (pop', ws')"
    by (simp add: warmup_or_exploit_def split: if_splits)
  then obtain p2 w2 where e: "exploit_and_explore rng config k returns pop0 ws = Inr (p2, w2)"
    by (auto simp: lax_cond_def dummy_fn_def split: sum.splits)
  from exploit_and_explore_lengths [OF e]
  have l: "length p2 = length pop0" "length w2 = length ws" by simp_all
  from c e l have v: "(pop', ws') = (if uint (its + 1) \<le> bound then (pop0, ws) else (p2, w2))"
    by (simp add: lax_cond_def dummy_fn_def)
  show ?thesis
  proof (cases "uint (its + 1) \<le> bound")
    case True
    with v show ?thesis by simp
  next
    case False
    with v e l show ?thesis by simp
  qed
qed

lemma warmup_iterations_10_2:
  "warmup_steps config = 10 \<Longrightarrow> per_iter_workflow_steps config = 2 \<Longrightarrow>
   warmup_iterations config = Inr 5"
  by (simp add: warmup_iterations_def)

text \<open>
  C7 (fails on the code): no step reaches the conditional. \<open>PBTWorkflow.step\<close> passes
  \<open>_train_steps\<close> as a positional argument before the population to a dispatcher that
  takes the population alone, so every step raises, whatever the iteration, and returns no
  state. The conditional itself passes its inputs through while \<open>iterations + 1\<close> is at
  most the bound and gives the output of \<open>exploit_and_explore\<close> after
  (\<open>warmup_or_exploit_cases\<close>), and the bound for \<open>warmup_steps = 10\<close> and
  \<open>per_iter_workflow_steps = 2\<close> is 5 (\<open>warmup_iterations_10_2\<close>).
\<close>

theorem step_raises_before_gate:
  "step rng config ax workflow_step workflow_evaluate state
     = Inl (if ax = None then TypeError else NameError)
   \<and> step demo_rng (demo_config (1 / 2) (1 / 2) 2) None demo_workflow_step
        demo_workflow_evaluate demo_state = Inl TypeError
   \<and> step demo_rng ((demo_config (1 / 2) (1 / 2) 2)\<lparr>parallel_train := False\<rparr>) None
        demo_workflow_step demo_workflow_evaluate demo_state = Inl TypeError"
  by (simp add: step_def vmap_def lax_map_partial_def Let_def)

end
